theory Spec2Isabelle
  imports Main "HOL-Library.AList" "HOL-Library.Sublist"
begin

section \<open>Textami OOXML parser: a shallow embedding of \<open>scripts/ingest_docx.py\<close>\<close>

text \<open>
  The development follows the class \<open>OOXMLStyleParser\<close>. Python dictionaries keep their
  insertion order and are iterated in it, so every dictionary is an association list that
  is only ever changed with \<open>AList.update\<close>: assigning to a key that is present replaces
  the value in place, assigning to a new key appends the pair at the end. \<open>len\<close> of a
  dictionary is the length of that list.

  Strings are \<open>string\<close>; style names are taken to be ASCII, and \<open>str.lower\<close> maps
  \<open>A\<close>..\<open>Z\<close> to \<open>a\<close>..\<open>z\<close>. An attribute read with \<open>elem.get\<close> is a
  \<open>string option\<close>: \<open>None\<close> is Python's \<open>None\<close> for an absent attribute.

  Not modelled: the wall clock (\<open>generatedAt\<close>, \<open>processing_time_seconds\<close>), the
  \<open>docx_path\<close> entry of the manifest, console output, and the text of the files written
  by \<open>save_outputs\<close>.
\<close>

subsection \<open>Python strings\<close>

definition ascii_uppercase :: string where
  "ascii_uppercase = ''ABCDEFGHIJKLMNOPQRSTUVWXYZ''"

definition ascii_lowercase :: string where
  "ascii_lowercase = ''abcdefghijklmnopqrstuvwxyz''"

definition lower_char :: "char \<Rightarrow> char" where
  "lower_char c =
     (case map_of (zip ascii_uppercase ascii_lowercase) c of Some d \<Rightarrow> d | None \<Rightarrow> c)"

definition lower :: "string \<Rightarrow> string" where
  "lower s = map lower_char s"

text \<open>\<open>str_in sub s\<close> is Python's \<open>sub in s\<close> on strings: \<open>sub\<close> occurs in \<open>s\<close> as a
  contiguous run.\<close>

primrec str_in :: "string \<Rightarrow> string \<Rightarrow> bool" where
  "str_in sub [] = (sub = [])"
| "str_in sub (c # cs) = (prefix sub (c # cs) \<or> str_in sub cs)"

definition quote :: "string \<Rightarrow> string" where
  "quote s = [CHR 0x27] @ s @ [CHR 0x27]"

subsection \<open>Exceptions\<close>

datatype error =
    BadZipFile          \<comment> \<open>\<open>zipfile.ZipFile\<close> on a file that is no archive (or is absent)\<close>
  | KeyError            \<comment> \<open>\<open>ZipFile.read\<close> of a member the archive does not have\<close>
  | XMLSyntaxError      \<comment> \<open>\<open>etree.fromstring\<close> on text that is not XML\<close>
  | AttributeError      \<comment> \<open>\<open>None.lower()\<close>\<close>
  | PackageNotFoundError \<comment> \<open>\<open>docx.Document\<close> on a file it cannot open\<close>
  | InvalidXmlError     \<comment> \<open>\<open>len(table.columns)\<close> on a table without \<open>w:tblGrid\<close>\<close>
  | OSError             \<comment> \<open>writing an output file\<close>

subsection \<open>The package and its payloads\<close>

text \<open>A \<open>w:style\<close> element as the extractor reads it: its \<open>w:styleId\<close> and \<open>w:type\<close>
  attributes, and the \<open>w:val\<close> attribute of each \<open>w:name\<close> and each \<open>w:basedOn\<close>
  child, in document order.\<close>

record style_elem =
  styleId_attr :: "string option"
  type_attr :: "string option"
  name_children :: "string option list"
  basedOn_children :: "string option list"

text \<open>A \<open>w:num\<close> element: its \<open>w:numId\<close> attribute and the \<open>w:val\<close> attribute of each
  \<open>w:abstractNumId\<close> child.\<close>

record num_elem =
  numId_attr :: "string option"
  abstractNumId_children :: "string option list"

text \<open>A member of the archive either parses, giving the elements that the XPath query
  \<open>//w:style\<close> (or \<open>//w:num\<close>) selects in document order, or is not XML.\<close>

datatype 'a payload = NotXML | Parsed "'a list"

datatype package =
    NotAZip
  | Zip (styles_member: "style_elem payload option")
        (numbering_member: "num_elem payload option")

text \<open>What \<open>python-docx\<close> shows of the document body. \<open>paragraph.style\<close> is \<open>None\<close>
  (\<open>NoStyle\<close>) or a style whose \<open>name\<close> may itself be \<open>None\<close>; \<open>len(table.columns)\<close>
  is a number or raises (\<open>None\<close>).\<close>

datatype docx_style = NoStyle | Style (name_of_style: "string option")

record docx_paragraph =
  par_style :: docx_style
  par_text :: string

record docx_table =
  tbl_rows :: nat
  tbl_columns :: "nat option"

record docx_document =
  paragraphs :: "docx_paragraph list"
  tables :: "docx_table list"

text \<open>The world outside the parser: the file at \<open>docx_path\<close> as an archive, the same file
  as \<open>docx.Document\<close> opens it (\<open>None\<close> when that raises), and the outcome of writing the
  three output files.\<close>

record environment =
  package :: package
  document :: "docx_document option"
  written :: "error + (string \<times> string) list"

subsection \<open>The parser's state\<close>

record style_data =
  sd_name :: "string option"
  sd_type :: "string option"
  sd_basedOn :: "string option"
  sd_xmlElement :: style_elem

record numbering_data_entry =
  nd_abstractNumId :: "string option"
  nd_xmlElement :: num_elem

datatype element =
    Paragraph (el_text: string) (el_style: "string option") (el_full_text: string)
  | Table (el_rows: nat) (el_cols: nat) (el_tstyle: string)

record statistics =
  total_styles_found :: nat
  mapped_styles :: nat
  fallback_styles :: nat

record manifest =
  version :: string
  styles :: "(string \<times> string) list"
  fallbacks :: "(string \<times> string) list"
  warnings :: "string list"
  vocabulary :: "string list"
  statistics :: statistics

type_synonym styles_dict = "(string option \<times> style_data) list"
type_synonym numbering_dict = "(string option \<times> numbering_data_entry) list"

record parser =
  docx_path :: string
  styles_data :: styles_dict
  numbering_data :: numbering_dict
  document_structure :: "element list"
  style_manifest :: "manifest option"
  html_vocabulary :: "(string \<times> string) list"

text \<open>\<open>OOXMLStyleParser.__init__\<close>\<close>

definition init :: "string \<Rightarrow> parser" where
  "init path =
     \<lparr> docx_path = path,
       styles_data = [],
       numbering_data = [],
       document_structure = [],
       style_manifest = None,
       html_vocabulary =
         [(''h1'', ''Heading 1, Title, Heading1Char''),
          (''h2'', ''Heading 2, Subtitle, Heading2Char''),
          (''h3'', ''Heading 3, Heading3Char''),
          (''p'', ''Normal, BodyText, DefaultParagraphFont''),
          (''p.BodyText'', ''Body Text, BodyTextChar''),
          (''ul.Bulleted'', ''List Bullet, ListBullet, BulletList''),
          (''ol.Numbered'', ''List Number, ListNumber, NumberedList''),
          (''table.StdTable'', ''Table Grid, TableGrid, StandardTable''),
          (''blockquote'', ''Quote, BlockText, IntenseQuote'')] \<rparr>"

subsection \<open>\<open>extract_styles_xml\<close>\<close>

text \<open>The body of the loop over \<open>//w:style\<close>: one assignment \<open>styles[style_id] = {...}\<close>.\<close>

definition style_entry :: "style_elem \<Rightarrow> string option \<times> style_data" where
  "style_entry style_elem =
     (let style_id = styleId_attr style_elem;
          style_type = type_attr style_elem;
          style_name = (case name_children style_elem of [] \<Rightarrow> style_id | v # _ \<Rightarrow> v);
          based_on = (case basedOn_children style_elem of [] \<Rightarrow> None | v # _ \<Rightarrow> v)
      in (style_id,
          \<lparr> sd_name = style_name, sd_type = style_type, sd_basedOn = based_on,
            sd_xmlElement = style_elem \<rparr>))"

primrec collect_styles :: "style_elem list \<Rightarrow> styles_dict \<Rightarrow> styles_dict" where
  "collect_styles [] styles_so_far = styles_so_far"
| "collect_styles (style_elem # rest) styles_so_far =
     collect_styles rest
       (AList.update (fst (style_entry style_elem)) (snd (style_entry style_elem))
          styles_so_far)"

text \<open>The \<open>try\<close> block: every way it can raise is a branch.\<close>

definition read_styles :: "package \<Rightarrow> error + styles_dict" where
  "read_styles pkg =
     (case pkg of
        NotAZip \<Rightarrow> Inl BadZipFile
      | Zip None _ \<Rightarrow> Inl KeyError
      | Zip (Some NotXML) _ \<Rightarrow> Inl XMLSyntaxError
      | Zip (Some (Parsed elems)) _ \<Rightarrow> Inr (collect_styles elems []))"

text \<open>The \<open>except Exception\<close> clause returns \<open>{}\<close> and leaves \<open>self.styles_data\<close> as it
  was.\<close>

definition extract_styles_xml :: "environment \<Rightarrow> parser \<Rightarrow> styles_dict \<times> parser" where
  "extract_styles_xml env self =
     (case read_styles (package env) of
        Inl e \<Rightarrow> ([], self)
      | Inr extracted \<Rightarrow> (extracted, self\<lparr>styles_data := extracted\<rparr>))"

subsection \<open>\<open>extract_numbering_xml\<close>\<close>

definition numbering_entry :: "num_elem \<Rightarrow> string option \<times> numbering_data_entry" where
  "numbering_entry num_elem =
     (let num_id = numId_attr num_elem;
          abstract_num_id =
            (case abstractNumId_children num_elem of [] \<Rightarrow> None | v # _ \<Rightarrow> v)
      in (num_id, \<lparr> nd_abstractNumId = abstract_num_id, nd_xmlElement = num_elem \<rparr>))"

primrec collect_numbering :: "num_elem list \<Rightarrow> numbering_dict \<Rightarrow> numbering_dict" where
  "collect_numbering [] numbering = numbering"
| "collect_numbering (num_elem # rest) numbering =
     collect_numbering rest
       (AList.update (fst (numbering_entry num_elem)) (snd (numbering_entry num_elem))
          numbering)"

text \<open>\<open>None\<close> is the early \<open>return {}\<close> for an archive without \<open>word/numbering.xml\<close>,
  which does not touch \<open>self.numbering_data\<close>.\<close>

definition read_numbering :: "package \<Rightarrow> error + numbering_dict option" where
  "read_numbering pkg =
     (case pkg of
        NotAZip \<Rightarrow> Inl BadZipFile
      | Zip _ None \<Rightarrow> Inr None
      | Zip _ (Some NotXML) \<Rightarrow> Inl XMLSyntaxError
      | Zip _ (Some (Parsed elems)) \<Rightarrow> Inr (Some (collect_numbering elems [])))"

definition extract_numbering_xml :: "environment \<Rightarrow> parser \<Rightarrow> numbering_dict \<times> parser" where
  "extract_numbering_xml env self =
     (case read_numbering (package env) of
        Inl e \<Rightarrow> ([], self)
      | Inr None \<Rightarrow> ([], self)
      | Inr (Some numbering) \<Rightarrow> (numbering, self\<lparr>numbering_data := numbering\<rparr>))"

subsection \<open>\<open>analyze_document_structure\<close>\<close>

definition paragraph_element :: "docx_paragraph \<Rightarrow> element" where
  "paragraph_element paragraph =
     (let style_name = (case par_style paragraph of Style n \<Rightarrow> n | NoStyle \<Rightarrow> Some ''Normal'')
      in Paragraph
           (if length (par_text paragraph) > 100
            then take 100 (par_text paragraph) @ ''...'' else par_text paragraph)
           style_name
           (par_text paragraph))"

text \<open>\<open>len(table.columns)\<close> is evaluated only for a table that has rows.\<close>

definition table_element :: "docx_table \<Rightarrow> error + element" where
  "table_element table =
     (if tbl_rows table \<noteq> 0
      then (case tbl_columns table of
              None \<Rightarrow> Inl InvalidXmlError
            | Some cols \<Rightarrow> Inr (Table (tbl_rows table) cols ''TableGrid''))
      else Inr (Table (tbl_rows table) 0 ''TableGrid''))"

primrec table_elements :: "docx_table list \<Rightarrow> error + element list" where
  "table_elements [] = Inr []"
| "table_elements (table # rest) =
     (case table_element table of
        Inl e \<Rightarrow> Inl e
      | Inr table_structure \<Rightarrow>
          (case table_elements rest of
             Inl e \<Rightarrow> Inl e
           | Inr others \<Rightarrow> Inr (table_structure # others)))"

text \<open>The \<open>try\<close> block: the paragraphs first, then the tables.\<close>

definition read_structure :: "environment \<Rightarrow> error + element list" where
  "read_structure env =
     (case document env of
        None \<Rightarrow> Inl PackageNotFoundError
      | Some doc \<Rightarrow>
          (case table_elements (tables doc) of
             Inl e \<Rightarrow> Inl e
           | Inr table_structures \<Rightarrow>
               Inr (map paragraph_element (paragraphs doc) @ table_structures)))"

text \<open>The \<open>except Exception\<close> clause returns \<open>[]\<close> and leaves \<open>self.document_structure\<close>
  as it was.\<close>

definition analyze_document_structure :: "environment \<Rightarrow> parser \<Rightarrow> element list \<times> parser" where
  "analyze_document_structure env self =
     (case read_structure env of
        Inl e \<Rightarrow> ([], self)
      | Inr structure \<Rightarrow> (structure, self\<lparr>document_structure := structure\<rparr>))"

subsection \<open>The heuristic: \<open>_map_style_to_html\<close>, \<open>_generate_fallback_mapping\<close>\<close>

text \<open>\<open>_map_style_to_html\<close> is written for a \<open>str\<close> name; \<open>None\<close> as its result is
  Python's \<open>return None\<close>. The branches are the \<open>if\<close>/\<open>elif\<close> chain in its order.\<close>

definition map_style_to_html :: "string \<Rightarrow> string option \<Rightarrow> string option" where
  "map_style_to_html style_name style_type =
     (let style_lower = lower style_name in
      if str_in ''heading 1'' style_lower \<or> style_lower = ''title'' then Some ''h1''
      else if str_in ''heading 2'' style_lower \<or> str_in ''subtitle'' style_lower then Some ''h2''
      else if str_in ''heading 3'' style_lower then Some ''h3''
      else if str_in ''body'' style_lower \<or> str_in ''normal'' style_lower then Some ''p''
      else if str_in ''body text'' style_lower then Some ''p.BodyText''
      else if str_in ''list bullet'' style_lower \<or> str_in ''bullet'' style_lower
        then Some ''ul.Bulleted''
      else if str_in ''list number'' style_lower \<or> str_in ''numbered'' style_lower
        then Some ''ol.Numbered''
      else if style_type = Some ''table'' \<or> str_in ''table'' style_lower
        then Some ''table.StdTable''
      else if str_in ''quote'' style_lower \<or> str_in ''block'' style_lower then Some ''blockquote''
      else None)"

definition generate_fallback_mapping :: "string \<Rightarrow> string option \<Rightarrow> string" where
  "generate_fallback_mapping style_name style_type =
     (if style_type = Some ''table'' then ''table.StdTable'' else ''p'')"

subsection \<open>\<open>_ensure_basic_mappings\<close>\<close>

definition essentials :: "(string \<times> string) list" where
  "essentials =
     [(''h1'', ''Heading 1''), (''h2'', ''Heading 2''), (''p'', ''Normal''),
      (''table.StdTable'', ''Table Grid'')]"

primrec ensure_each :: "(string \<times> string) list \<Rightarrow> (string \<times> string) list \<Rightarrow> (string \<times> string) list"
  where
  "ensure_each [] mappings = mappings"
| "ensure_each (item # rest) mappings =
     ensure_each rest
       (if fst item \<notin> set (map fst mappings) then AList.update (fst item) (snd item) mappings
        else mappings)"

definition ensure_basic_mappings :: "(string \<times> string) list \<Rightarrow> (string \<times> string) list" where
  "ensure_basic_mappings mappings = ensure_each essentials mappings"

subsection \<open>\<open>generate_html_semantic_mappings\<close>\<close>

text \<open>The three local dictionaries and lists of the loop: \<open>mappings\<close>, \<open>warnings\<close>,
  \<open>fallbacks\<close>.\<close>

type_synonym loop_state = "(string \<times> string) list \<times> string list \<times> (string \<times> string) list"

definition considered :: "string option \<Rightarrow> bool" where
  "considered style_type = (style_type \<in> {Some ''paragraph'', Some ''table''})"

definition warning_text :: "string \<Rightarrow> string \<Rightarrow> string" where
  "warning_text style_name fallback_element =
     ''Unknown style '' @ quote style_name @ '' mapped to '' @ quote fallback_element"

text \<open>One iteration. A style that passes the type test with the name \<open>None\<close> makes
  \<open>style_name.lower()\<close> raise.\<close>

definition process_style :: "string option \<times> style_data \<Rightarrow> loop_state \<Rightarrow> error + loop_state" where
  "process_style item st =
     (case st of (mappings, warns, fbs) \<Rightarrow>
        let style_name = sd_name (snd item); style_type = sd_type (snd item) in
        if \<not> considered style_type then Inr (mappings, warns, fbs)
        else (case style_name of
                None \<Rightarrow> Inl AttributeError
              | Some n \<Rightarrow>
                  (case map_style_to_html n style_type of
                     Some html_element \<Rightarrow> Inr (AList.update html_element n mappings, warns, fbs)
                   | None \<Rightarrow>
                       let fallback_element = generate_fallback_mapping n style_type
                       in Inr (mappings,
                               warns @ [warning_text n fallback_element],
                               AList.update n fallback_element fbs))))"

primrec process_styles :: "styles_dict \<Rightarrow> loop_state \<Rightarrow> error + loop_state" where
  "process_styles [] st = Inr st"
| "process_styles (item # rest) st =
     (case process_style item st of Inl e \<Rightarrow> Inl e | Inr st' \<Rightarrow> process_styles rest st')"

definition generate_html_semantic_mappings :: "parser \<Rightarrow> error + manifest \<times> parser" where
  "generate_html_semantic_mappings self =
     (case process_styles (styles_data self) ([], [], []) of
        Inl e \<Rightarrow> Inl e
      | Inr (mappings0, warns, fbs) \<Rightarrow>
          let mappings = ensure_basic_mappings mappings0;
              m = \<lparr> version = ''1.0'',
                    styles = mappings,
                    fallbacks = fbs,
                    warnings = warns,
                    vocabulary = map fst (html_vocabulary self),
                    statistics =
                      \<lparr> total_styles_found = length (styles_data self),
                        mapped_styles = length mappings,
                        fallback_styles = length fbs \<rparr> \<rparr>
          in Inr (m, self\<lparr>style_manifest := Some m\<rparr>))"

subsection \<open>\<open>save_outputs\<close> and \<open>process_full_pipeline\<close>\<close>

text \<open>\<open>save_outputs\<close> only writes files; what it returns, or that it raises, is the
  environment's.\<close>

definition save_outputs :: "environment \<Rightarrow> string \<Rightarrow> parser \<Rightarrow> error + (string \<times> string) list" where
  "save_outputs env output_dir self = written env"

datatype pipeline_result =
    Success (res_style_manifest: "manifest option") (res_document_structure: "element list")
            (res_outputs: "(string \<times> string) list")
  | Failure (res_error: error)

definition success :: "pipeline_result \<Rightarrow> bool" where
  "success r = (case r of Success _ _ _ \<Rightarrow> True | Failure _ \<Rightarrow> False)"

text \<open>\<open>if output_dir:\<close> is false for \<open>None\<close> and for the empty string.\<close>

definition process_full_pipeline :: "environment \<Rightarrow> string option \<Rightarrow> parser \<Rightarrow> pipeline_result" where
  "process_full_pipeline env output_dir self =
     (let self1 = snd (extract_styles_xml env self);
          self2 = snd (extract_numbering_xml env self1);
          self3 = snd (analyze_document_structure env self2)
      in case generate_html_semantic_mappings self3 of
           Inl e \<Rightarrow> Failure e
         | Inr (m, self4) \<Rightarrow>
             (case output_dir of
                None \<Rightarrow> Success (style_manifest self4) (document_structure self4) []
              | Some d \<Rightarrow>
                  if d = [] then Success (style_manifest self4) (document_structure self4) []
                  else (case save_outputs env d self4 of
                          Inl e \<Rightarrow> Failure e
                        | Inr outputs \<Rightarrow>
                            Success (style_manifest self4) (document_structure self4) outputs)))"

subsection \<open>Notions used to state the properties\<close>

text \<open>A catalog is well formed when every style that passes the type test has a name. The
  extractor gives a style a name when the first \<open>w:name\<close> child of its element carries
  \<open>w:val\<close>, or, for an element without such a child, when the element has a
  \<open>w:styleId\<close>.\<close>

definition well_formed :: "styles_dict \<Rightarrow> bool" where
  "well_formed d =
     list_all (\<lambda>item. considered (sd_type (snd item)) \<longrightarrow> sd_name (snd item) \<noteq> None) d"

text \<open>The tag the loop files a style under, if any: the style passes the type test, has a
  name, and \<open>_map_style_to_html\<close> returns a tag for it.\<close>

definition match_tag :: "style_data \<Rightarrow> string option" where
  "match_tag sd =
     (if considered (sd_type sd)
      then (case sd_name sd of None \<Rightarrow> None | Some n \<Rightarrow> map_style_to_html n (sd_type sd))
      else None)"

text \<open>The styles that take the fallback branch, in order: name and type of every style
  that passes the type test and for which \<open>_map_style_to_html\<close> returns \<open>None\<close>.\<close>

definition unmatched_styles :: "styles_dict \<Rightarrow> (string \<times> string option) list" where
  "unmatched_styles d =
     List.map_filter
       (\<lambda>item. case sd_name (snd item) of
                 None \<Rightarrow> None
               | Some n \<Rightarrow>
                   if considered (sd_type (snd item))
                      \<and> map_style_to_html n (sd_type (snd item)) = None
                   then Some (n, sd_type (snd item)) else None) d"

text \<open>The tags \<open>_map_style_to_html\<close> can return.\<close>

definition reachable_tags :: "string list" where
  "reachable_tags =
     [''h1'', ''h2'', ''h3'', ''p'', ''ul.Bulleted'', ''ol.Numbered'', ''table.StdTable'',
      ''blockquote'']"

text \<open>The rule list as the specification words it (section 4.1, rules 1 to 9), applied to
  the lower-cased name \<open>s\<close> and the kind \<open>k\<close>, and its scan from the top in which the
  first rule that holds decides.\<close>

definition heuristic_rules :: "((string \<Rightarrow> string option \<Rightarrow> bool) \<times> string) list" where
  "heuristic_rules =
     [(\<lambda>s k. str_in ''heading 1'' s \<or> s = ''title'', ''h1''),
      (\<lambda>s k. str_in ''heading 2'' s \<or> str_in ''subtitle'' s, ''h2''),
      (\<lambda>s k. str_in ''heading 3'' s, ''h3''),
      (\<lambda>s k. str_in ''body'' s \<or> str_in ''normal'' s, ''p''),
      (\<lambda>s k. str_in ''body text'' s, ''p.BodyText''),
      (\<lambda>s k. str_in ''list bullet'' s \<or> str_in ''bullet'' s, ''ul.Bulleted''),
      (\<lambda>s k. str_in ''list number'' s \<or> str_in ''numbered'' s, ''ol.Numbered''),
      (\<lambda>s k. k = Some ''table'' \<or> str_in ''table'' s, ''table.StdTable''),
      (\<lambda>s k. str_in ''quote'' s \<or> str_in ''block'' s, ''blockquote'')]"

definition first_match ::
  "((string \<Rightarrow> string option \<Rightarrow> bool) \<times> string) list \<Rightarrow> string \<Rightarrow> string option \<Rightarrow> string option"
  where
  "first_match rules s k = map_option snd (find (\<lambda>rule. fst rule s k) rules)"

text \<open>The styles that pass the type test of the loop.\<close>

definition considered_styles :: "styles_dict \<Rightarrow> styles_dict" where
  "considered_styles d = filter (\<lambda>item. considered (sd_type (snd item))) d"

text \<open>The manifest a run of \<open>generate_html_semantic_mappings\<close> returns, \<open>None\<close> when it
  raises.\<close>

definition manifest_of :: "parser \<Rightarrow> manifest option" where
  "manifest_of self =
     (case generate_html_semantic_mappings self of Inl e \<Rightarrow> None | Inr r \<Rightarrow> Some (fst r))"

subsection \<open>Sample inputs\<close>

text \<open>A \<open>w:style\<close> element with an identifier, a type and one \<open>w:name\<close> child.\<close>

definition xml_style :: "string \<Rightarrow> string \<Rightarrow> string \<Rightarrow> style_elem" where
  "xml_style style_id style_type style_name =
     \<lparr> styleId_attr = Some style_id, type_attr = Some style_type,
       name_children = [Some style_name], basedOn_children = [] \<rparr>"

text \<open>A parser whose catalog was extracted from the given \<open>w:style\<close> elements.\<close>

definition parser_with :: "style_elem list \<Rightarrow> parser" where
  "parser_with elems = (init ''sample.docx'')\<lparr>styles_data := collect_styles elems []\<rparr>"

text \<open>A catalog with one style, of type \<open>character\<close>.\<close>

definition character_only :: parser where
  "character_only = parser_with [xml_style ''Emphasis'' ''character'' ''Emphasis'']"

text \<open>Two paragraph styles, ``Heading 1'' and then ``Title''.\<close>

definition heading_then_title :: parser where
  "heading_then_title =
     parser_with [xml_style ''Heading1'' ''paragraph'' ''Heading 1'',
                  xml_style ''Title'' ''paragraph'' ''Title'']"

text \<open>A paragraph style that is matched, one that no rule matches, and a character
  style.\<close>

definition fancy_box :: parser where
  "fancy_box =
     parser_with [xml_style ''Normal'' ''paragraph'' ''Normal'',
                  xml_style ''FancyBox'' ''paragraph'' ''Fancy Box'',
                  xml_style ''Emphasis'' ''character'' ''Emphasis'']"

text \<open>What the claims call the classification: the \<open>styles\<close>, \<open>fallbacks\<close> and
  \<open>warnings\<close> of the manifest that \<open>generate_html_semantic_mappings\<close> returns, or the
  exception it raises.\<close>

definition classification ::
  "parser \<Rightarrow> error + (string \<times> string) list \<times> (string \<times> string) list \<times> string list" where
  "classification self =
     (case generate_html_semantic_mappings self of
        Inl e \<Rightarrow> Inl e
      | Inr r \<Rightarrow> Inr (styles (fst r), fallbacks (fst r), warnings (fst r)))"

text \<open>A paragraph style followed by a character style.\<close>

definition normal_then_character :: "style_elem list" where
  "normal_then_character =
     [xml_style ''Normal'' ''paragraph'' ''Normal'',
      xml_style ''Emphasis'' ''character'' ''Emphasis'']"

text \<open>The same two styles read from two different files, the second with a \<open>w:basedOn\<close>
  child on its first style, into a parser that already holds a manifest.\<close>

definition run_one :: parser where
  "run_one =
     (init ''one.docx'')\<lparr>styles_data :=
        collect_styles [xml_style ''Normal'' ''paragraph'' ''Normal'',
                        xml_style ''Quote'' ''paragraph'' ''Intense Quote''] []\<rparr>"

definition run_two :: parser where
  "run_two =
     (init ''two.docx'')\<lparr>styles_data :=
        collect_styles [(xml_style ''Normal'' ''paragraph'' ''Normal'')\<lparr>basedOn_children := [Some ''Base'']\<rparr>,
                        xml_style ''Quote'' ''paragraph'' ''Intense Quote''] [],
        style_manifest := manifest_of (init ''earlier.docx'')\<rparr>"

text \<open>The inputs of claim C1: the file is no archive, or the archive has no
  \<open>word/styles.xml\<close>.\<close>

definition unreadable :: "package \<Rightarrow> bool" where
  "unreadable pkg =
     (case pkg of NotAZip \<Rightarrow> True | Zip None _ \<Rightarrow> True | Zip (Some _) _ \<Rightarrow> False)"

text \<open>The manifest of a parser with an empty catalog and the vocabulary of \<open>__init__\<close>.\<close>

definition defaults_manifest :: manifest where
  "defaults_manifest =
     \<lparr> version = ''1.0'',
       styles = [(''h1'', ''Heading 1''), (''h2'', ''Heading 2''), (''p'', ''Normal''),
                 (''table.StdTable'', ''Table Grid'')],
       fallbacks = [],
       warnings = [],
       vocabulary = [''h1'', ''h2'', ''h3'', ''p'', ''p.BodyText'', ''ul.Bulleted'',
                     ''ol.Numbered'', ''table.StdTable'', ''blockquote''],
       statistics = \<lparr> total_styles_found = 0, mapped_styles = 4, fallback_styles = 0 \<rparr> \<rparr>"

text \<open>What \<open>analyze_document_structure\<close> leaves in a fresh parser.\<close>

definition structure_of :: "environment \<Rightarrow> element list" where
  "structure_of env = document_structure (snd (analyze_document_structure env (init [])))"

text \<open>A file that is no archive; an archive without \<open>word/styles.xml\<close>.\<close>

definition not_a_zip :: environment where
  "not_a_zip = \<lparr> package = NotAZip, document = None, written = Inl OSError \<rparr>"

definition no_styles_member :: environment where
  "no_styles_member =
     \<lparr> package = Zip None None,
       document = Some \<lparr> paragraphs = [\<lparr> par_style = NoStyle, par_text = ''Hello'' \<rparr>], tables = [] \<rparr>,
       written = Inr [(''manifest'', ''out/sample_styleManifest.json''),
                      (''html_preview'', ''out/sample_preview.html''),
                      (''report'', ''out/sample_report.json'')] \<rparr>"

text \<open>A \<open>w:style\<close> element without \<open>w:styleId\<close>, and an archive whose style definitions
  hold it between two ordinary styles.\<close>

definition orphan_style :: style_elem where
  "orphan_style =
     \<lparr> styleId_attr = None, type_attr = Some ''paragraph'',
       name_children = [Some ''Orphan''], basedOn_children = [] \<rparr>"

definition missing_style_id :: environment where
  "missing_style_id =
     \<lparr> package =
         Zip (Some (Parsed ([xml_style ''Normal'' ''paragraph'' ''Normal''] @
                            orphan_style # [xml_style ''Title'' ''paragraph'' ''Title''])))
             None,
       document = None,
       written = Inl OSError \<rparr>"

text \<open>Two paragraph styles that no rule matches, among a matched paragraph style, a
  character style and a table style with a name of its own.\<close>

definition two_unmatched :: parser where
  "two_unmatched =
     parser_with [xml_style ''Normal'' ''paragraph'' ''Normal'',
                  xml_style ''FancyBox'' ''paragraph'' ''Fancy Box'',
                  xml_style ''Emphasis'' ''character'' ''Emphasis'',
                  xml_style ''CustomGrid7'' ''table'' ''Custom Grid 7'',
                  xml_style ''SideNote'' ''paragraph'' ''Side Note'']"

section \<open>Properties\<close>

subsection \<open>Strings and the heuristic\<close>

lemmas lower_simps = lower_def lower_char_def ascii_uppercase_def ascii_lowercase_def

lemma str_in_sublist: "str_in sub s = sublist sub s"
  by (induction s) (auto simp: sublist_Cons_right)

lemma str_in_trans: "str_in a b \<Longrightarrow> str_in b c \<Longrightarrow> str_in a c"
  unfolding str_in_sublist by (rule sublist_order.order_trans)

lemma body_in_body_text: "str_in ''body'' ''body text''"
  by simp

lemma body_text_imp_body: "str_in ''body text'' s \<Longrightarrow> str_in ''body'' s"
  by (rule str_in_trans [OF body_in_body_text])

lemma map_style_to_html_not_BodyText: "map_style_to_html n ty \<noteq> Some ''p.BodyText''"
  by (auto simp: map_style_to_html_def Let_def dest: body_text_imp_body)

lemma map_style_to_html_range:
  assumes "map_style_to_html n ty = Some t"
  shows "t \<in> set reachable_tags"
proof (cases "str_in ''body text'' (lower n)")
  case True
  then have "str_in ''body'' (lower n)" by (rule body_text_imp_body)
  with assms show ?thesis
    unfolding map_style_to_html_def Let_def reachable_tags_def
    by (simp split: if_splits)
next
  case False
  with assms show ?thesis
    unfolding map_style_to_html_def Let_def reachable_tags_def
    by (simp split: if_splits)
qed

lemma map_style_to_html_table: "map_style_to_html n (Some ''table'') \<noteq> None"
  by (simp add: map_style_to_html_def Let_def)

lemma fallback_is_p:
  "map_style_to_html n ty = None \<Longrightarrow> generate_fallback_mapping n ty = ''p''"
  using map_style_to_html_table [of n] by (auto simp: generate_fallback_mapping_def)

lemma map_style_to_html_first_match:
  "map_style_to_html n ty = first_match heuristic_rules (lower n) ty"
  by (simp add: map_style_to_html_def first_match_def heuristic_rules_def Let_def)

subsection \<open>One iteration\<close>

lemma process_style_skip:
  "\<not> considered (sd_type (snd item)) \<Longrightarrow> process_style item st = Inr st"
  by (cases st) (simp add: process_style_def Let_def)

lemma process_style_no_name:
  "considered (sd_type (snd item)) \<Longrightarrow> sd_name (snd item) = None \<Longrightarrow>
   process_style item st = Inl AttributeError"
  by (cases st) (simp add: process_style_def Let_def)

lemma process_style_matched:
  "considered (sd_type (snd item)) \<Longrightarrow> sd_name (snd item) = Some n \<Longrightarrow>
   map_style_to_html n (sd_type (snd item)) = Some t \<Longrightarrow>
   process_style item (m, w, f) = Inr (AList.update t n m, w, f)"
  by (simp add: process_style_def Let_def)

lemma process_style_fallback:
  "considered (sd_type (snd item)) \<Longrightarrow> sd_name (snd item) = Some n \<Longrightarrow>
   map_style_to_html n (sd_type (snd item)) = None \<Longrightarrow>
   process_style item (m, w, f) =
     Inr (m, w @ [warning_text n (generate_fallback_mapping n (sd_type (snd item)))],
          AList.update n (generate_fallback_mapping n (sd_type (snd item))) f)"
  by (simp add: process_style_def Let_def)

lemma process_style_cases:
  assumes "process_style item (m, w, f) = Inr (m', w', f')"
  obtains (skip) "\<not> considered (sd_type (snd item))" "m' = m" "w' = w" "f' = f"
  | (matched) n t where "considered (sd_type (snd item))" "sd_name (snd item) = Some n"
      "map_style_to_html n (sd_type (snd item)) = Some t"
      "m' = AList.update t n m" "w' = w" "f' = f"
  | (fallback) n where "considered (sd_type (snd item))" "sd_name (snd item) = Some n"
      "map_style_to_html n (sd_type (snd item)) = None"
      "m' = m" "w' = w @ [warning_text n (generate_fallback_mapping n (sd_type (snd item)))]"
      "f' = AList.update n (generate_fallback_mapping n (sd_type (snd item))) f"
proof (cases "considered (sd_type (snd item))")
  case False
  with assms skip show ?thesis by (simp add: process_style_skip)
next
  case c: True
  show ?thesis
  proof (cases "sd_name (snd item)")
    case None
    with c assms show ?thesis by (simp add: process_style_no_name)
  next
    case (Some n)
    show ?thesis
    proof (cases "map_style_to_html n (sd_type (snd item))")
      case None
      with c Some assms fallback show ?thesis by (simp add: process_style_fallback)
    next
      case (Some t)
      with c \<open>sd_name (snd item) = Some n\<close> assms matched show ?thesis
        by (simp add: process_style_matched)
    qed
  qed
qed

lemma process_style_total:
  assumes "considered (sd_type (snd item)) \<longrightarrow> sd_name (snd item) \<noteq> None"
  shows "\<exists>st'. process_style item st = Inr st'"
proof (cases "considered (sd_type (snd item))")
  case False
  then have "process_style item st = Inr st" by (rule process_style_skip)
  then show ?thesis by (rule exI)
next
  case True
  with assms obtain n where n: "sd_name (snd item) = Some n" by auto
  obtain m w f where st: "st = (m, w, f)" by (cases st) auto
  show ?thesis
  proof (cases "map_style_to_html n (sd_type (snd item))")
    case None
    with True n st show ?thesis by (simp add: process_style_fallback)
  next
    case (Some t)
    with True n st show ?thesis by (simp add: process_style_matched)
  qed
qed

subsection \<open>The loop\<close>

lemma process_styles_total:
  "well_formed d \<Longrightarrow> \<exists>st'. process_styles d st = Inr st'"
proof (induction d arbitrary: st)
  case Nil
  have "process_styles [] st = Inr st" by simp
  then show ?case by (rule exI)
next
  case (Cons item rest)
  from Cons.prems have "considered (sd_type (snd item)) \<longrightarrow> sd_name (snd item) \<noteq> None"
    and wf: "well_formed rest"
    by (simp_all add: well_formed_def)
  then obtain st1 where "process_style item st = Inr st1"
    using process_style_total by blast
  with Cons.IH [OF wf, of st1] show ?case by simp
qed

lemma process_styles_append:
  "process_styles (a @ b) st =
     (case process_styles a st of Inl e \<Rightarrow> Inl e | Inr st' \<Rightarrow> process_styles b st')"
  by (induction a arbitrary: st) (simp_all split: sum.splits)

lemma process_styles_Cons_Inr:
  assumes "process_styles (item # rest) st = Inr st2"
  obtains st1 where "process_style item st = Inr st1" "process_styles rest st1 = Inr st2"
  using assms by (cases "process_style item st") simp_all

subsection \<open>\<open>_ensure_basic_mappings\<close>\<close>

lemma map_of_ensure_each:
  "map_of (ensure_each es m) t = (case map_of m t of Some v \<Rightarrow> Some v | None \<Rightarrow> map_of es t)"
proof (induction es arbitrary: m)
  case Nil
  then show ?case by (simp split: option.splits)
next
  case (Cons item rest)
  obtain k v where item: "item = (k, v)" by (cases item) auto
  show ?case
  proof (cases "k \<in> set (map fst m)")
    case True
    then obtain v' where "map_of m k = Some v'"
      by (metis list.set_map map_of_eq_None_iff not_None_eq)
    with True item show ?thesis
      by (simp add: Cons.IH split: option.splits)
  next
    case False
    then have "map_of m k = None"
      by (simp add: map_of_eq_None_iff)
    with False item show ?thesis
      by (simp add: Cons.IH update_conv' split: option.splits)
  qed
qed

lemma keys_ensure_each:
  "fst ` set (ensure_each es m) = fst ` set m \<union> fst ` set es"
proof (induction es arbitrary: m)
  case Nil
  then show ?case by simp
next
  case (Cons item rest)
  show ?case
    by (simp add: Cons.IH dom_update) blast
qed

lemma distinct_ensure_each:
  "distinct (map fst m) \<Longrightarrow> distinct (map fst (ensure_each es m))"
  by (induction es arbitrary: m) (simp_all add: distinct_update)

lemma ensure_basic_mappings_empty: "ensure_basic_mappings [] = essentials"
  by (simp add: ensure_basic_mappings_def essentials_def)

subsection \<open>What the loop does to \<open>mappings\<close>\<close>

lemma process_styles_keys:
  "process_styles d (m, w, f) = Inr (m', w', f') \<Longrightarrow>
   fst ` set m' = fst ` set m \<union> {t. \<exists>item \<in> set d. match_tag (snd item) = Some t}"
proof (induction d arbitrary: m w f)
  case Nil
  then show ?case by simp
next
  case (Cons item rest)
  from Cons.prems obtain st1 where s1: "process_style item (m, w, f) = Inr st1"
    and s2: "process_styles rest st1 = Inr (m', w', f')"
    by (rule process_styles_Cons_Inr)
  obtain m1 w1 f1 where st1: "st1 = (m1, w1, f1)" by (cases st1) auto
  from s2 st1 have IH: "fst ` set m' = fst ` set m1 \<union> {t. \<exists>item \<in> set rest. match_tag (snd item) = Some t}"
    using Cons.IH by simp
  from s1 [unfolded st1] show ?case
  proof (cases rule: process_style_cases)
    case skip
    then have "match_tag (snd item) = None" by (simp add: match_tag_def)
    with skip IH show ?thesis by auto
  next
    case (matched n t)
    then have "match_tag (snd item) = Some t" by (simp add: match_tag_def)
    with matched IH show ?thesis by (auto simp: dom_update)
  next
    case (fallback n)
    then have "match_tag (snd item) = None" by (simp add: match_tag_def)
    with fallback IH show ?thesis by auto
  qed
qed

lemma process_styles_untouched:
  "process_styles d (m, w, f) = Inr (m', w', f') \<Longrightarrow>
   \<forall>item \<in> set d. match_tag (snd item) \<noteq> Some t \<Longrightarrow> map_of m' t = map_of m t"
proof (induction d arbitrary: m w f)
  case Nil
  then show ?case by simp
next
  case (Cons item rest)
  from Cons.prems(1) obtain st1 where s1: "process_style item (m, w, f) = Inr st1"
    and s2: "process_styles rest st1 = Inr (m', w', f')"
    by (rule process_styles_Cons_Inr)
  obtain m1 w1 f1 where st1: "st1 = (m1, w1, f1)" by (cases st1) auto
  from Cons.prems(2) have no: "match_tag (snd item) \<noteq> Some t"
    and rest: "\<forall>item \<in> set rest. match_tag (snd item) \<noteq> Some t" by simp_all
  from s2 st1 rest have IH: "map_of m' t = map_of m1 t"
    using Cons.IH by simp
  from s1 [unfolded st1] show ?case
  proof (cases rule: process_style_cases)
    case skip
    with IH show ?thesis by simp
  next
    case (matched n t')
    then have "match_tag (snd item) = Some t'" by (simp add: match_tag_def)
    with no have "t' \<noteq> t" by auto
    with matched IH show ?thesis by (simp add: update_conv')
  next
    case (fallback n)
    with IH show ?thesis by simp
  qed
qed

lemma process_styles_distinct:
  "process_styles d (m, w, f) = Inr (m', w', f') \<Longrightarrow>
   distinct (map fst m) \<Longrightarrow> distinct (map fst f) \<Longrightarrow>
   distinct (map fst m') \<and> distinct (map fst f')"
proof (induction d arbitrary: m w f)
  case Nil
  then show ?case by simp
next
  case (Cons item rest)
  from Cons.prems(1) obtain st1 where s1: "process_style item (m, w, f) = Inr st1"
    and s2: "process_styles rest st1 = Inr (m', w', f')"
    by (rule process_styles_Cons_Inr)
  obtain m1 w1 f1 where st1: "st1 = (m1, w1, f1)" by (cases st1) auto
  from s1 [unfolded st1] have "distinct (map fst m1) \<and> distinct (map fst f1)"
    by (cases rule: process_style_cases) (simp_all add: Cons.prems distinct_update)
  with s2 st1 show ?case using Cons.IH by simp
qed

subsection \<open>What the loop does to \<open>warnings\<close> and \<open>fallbacks\<close>\<close>

lemma unmatched_styles_Nil: "unmatched_styles [] = []"
  by (simp add: unmatched_styles_def)

lemma unmatched_styles_skip:
  "\<not> considered (sd_type (snd item)) \<Longrightarrow> unmatched_styles (item # rest) = unmatched_styles rest"
  by (simp add: unmatched_styles_def split: option.splits)

lemma unmatched_styles_matched:
  "sd_name (snd item) = Some n \<Longrightarrow> map_style_to_html n (sd_type (snd item)) = Some t \<Longrightarrow>
   unmatched_styles (item # rest) = unmatched_styles rest"
  by (simp add: unmatched_styles_def)

lemma unmatched_styles_fallback:
  "considered (sd_type (snd item)) \<Longrightarrow> sd_name (snd item) = Some n \<Longrightarrow>
   map_style_to_html n (sd_type (snd item)) = None \<Longrightarrow>
   unmatched_styles (item # rest) = (n, sd_type (snd item)) # unmatched_styles rest"
  by (simp add: unmatched_styles_def)

lemma unmatched_styles_unmatched:
  "(n, ty) \<in> set (unmatched_styles d) \<Longrightarrow> considered ty \<and> map_style_to_html n ty = None"
  by (auto simp: unmatched_styles_def map_filter_def split: option.splits if_splits)

lemma process_styles_warnings:
  "process_styles d (m, w, f) = Inr (m', w', f') \<Longrightarrow>
   w' = w @ map (\<lambda>(n, ty). warning_text n (generate_fallback_mapping n ty)) (unmatched_styles d)"
proof (induction d arbitrary: m w f)
  case Nil
  then show ?case by (simp add: unmatched_styles_Nil)
next
  case (Cons item rest)
  from Cons.prems obtain st1 where s1: "process_style item (m, w, f) = Inr st1"
    and s2: "process_styles rest st1 = Inr (m', w', f')"
    by (rule process_styles_Cons_Inr)
  obtain m1 w1 f1 where st1: "st1 = (m1, w1, f1)" by (cases st1) auto
  from s2 st1 have IH: "w' = w1 @ map (\<lambda>(n, ty). warning_text n (generate_fallback_mapping n ty)) (unmatched_styles rest)"
    using Cons.IH by simp
  from s1 [unfolded st1] show ?case
  proof (cases rule: process_style_cases)
    case skip
    with IH show ?thesis by (simp add: unmatched_styles_skip)
  next
    case (matched n t)
    with IH show ?thesis by (simp add: unmatched_styles_matched)
  next
    case (fallback n)
    with IH show ?thesis by (simp add: unmatched_styles_fallback)
  qed
qed

lemma process_styles_fallbacks:
  "process_styles d (m, w, f) = Inr (m', w', f') \<Longrightarrow>
   map_of f' n = (if n \<in> fst ` set (unmatched_styles d) then Some ''p'' else map_of f n)"
proof (induction d arbitrary: m w f)
  case Nil
  then show ?case by (simp add: unmatched_styles_Nil)
next
  case (Cons item rest)
  from Cons.prems obtain st1 where s1: "process_style item (m, w, f) = Inr st1"
    and s2: "process_styles rest st1 = Inr (m', w', f')"
    by (rule process_styles_Cons_Inr)
  obtain m1 w1 f1 where st1: "st1 = (m1, w1, f1)" by (cases st1) auto
  from s2 st1 have IH: "map_of f' n = (if n \<in> fst ` set (unmatched_styles rest) then Some ''p'' else map_of f1 n)"
    using Cons.IH by simp
  from s1 [unfolded st1] show ?case
  proof (cases rule: process_style_cases)
    case skip
    with IH show ?thesis by (simp add: unmatched_styles_skip)
  next
    case (matched n' t)
    with IH show ?thesis by (simp add: unmatched_styles_matched)
  next
    case (fallback n')
    then have fb: "generate_fallback_mapping n' (sd_type (snd item)) = ''p''"
      by (simp add: fallback_is_p)
    from fallback IH show ?thesis
      by (simp add: fb unmatched_styles_fallback update_conv')
  qed
qed

lemma process_styles_fallback_keys:
  "process_styles d (m, w, f) = Inr (m', w', f') \<Longrightarrow>
   fst ` set f' = fst ` set f \<union> fst ` set (unmatched_styles d)"
proof (induction d arbitrary: m w f)
  case Nil
  then show ?case by (simp add: unmatched_styles_Nil)
next
  case (Cons item rest)
  from Cons.prems obtain st1 where s1: "process_style item (m, w, f) = Inr st1"
    and s2: "process_styles rest st1 = Inr (m', w', f')"
    by (rule process_styles_Cons_Inr)
  obtain m1 w1 f1 where st1: "st1 = (m1, w1, f1)" by (cases st1) auto
  from s2 st1 have IH: "fst ` set f' = fst ` set f1 \<union> fst ` set (unmatched_styles rest)"
    using Cons.IH by simp
  from s1 [unfolded st1] show ?case
  proof (cases rule: process_style_cases)
    case skip
    with IH show ?thesis by (simp add: unmatched_styles_skip)
  next
    case (matched n' t)
    with IH show ?thesis by (simp add: unmatched_styles_matched)
  next
    case (fallback n')
    with IH show ?thesis
      by (simp add: unmatched_styles_fallback dom_update)
  qed
qed

subsection \<open>Frame and dependence\<close>

lemma process_styles_drop_skipped:
  "\<not> considered (sd_type (snd item)) \<Longrightarrow>
   process_styles (pre @ item # post) st = process_styles (pre @ post) st"
  by (simp add: process_styles_append process_style_skip split: sum.splits)

lemma process_style_cong:
  "sd_name (snd i1) = sd_name (snd i2) \<Longrightarrow> sd_type (snd i1) = sd_type (snd i2) \<Longrightarrow>
   process_style i1 st = process_style i2 st"
  by (simp add: process_style_def)

lemma process_styles_cong:
  "map (\<lambda>i. (sd_name (snd i), sd_type (snd i))) d1 = map (\<lambda>i. (sd_name (snd i), sd_type (snd i))) d2 \<Longrightarrow>
   process_styles d1 st = process_styles d2 st"
proof (induction d1 arbitrary: d2 st)
  case Nil
  then show ?case by simp
next
  case (Cons i1 r1)
  then obtain i2 r2 where d2: "d2 = i2 # r2" by (cases d2) auto
  with Cons.prems have h: "sd_name (snd i1) = sd_name (snd i2)" "sd_type (snd i1) = sd_type (snd i2)"
    and r: "map (\<lambda>i. (sd_name (snd i), sd_type (snd i))) r1 = map (\<lambda>i. (sd_name (snd i), sd_type (snd i))) r2"
    by simp_all
  have "process_style i1 st = process_style i2 st" using h by (rule process_style_cong)
  with Cons.IH [OF r] d2 show ?case by (simp split: sum.splits)
qed

subsection \<open>The manifest\<close>

lemma generate_html_semantic_mappings_Inr:
  assumes "process_styles (styles_data self) ([], [], []) = Inr (m0, w, f)"
  shows "\<exists>m. generate_html_semantic_mappings self = Inr (m, self\<lparr>style_manifest := Some m\<rparr>)
     \<and> version m = ''1.0''
     \<and> styles m = ensure_basic_mappings m0 \<and> fallbacks m = f \<and> warnings m = w
     \<and> vocabulary m = map fst (html_vocabulary self)
     \<and> total_styles_found (statistics m) = length (styles_data self)
     \<and> mapped_styles (statistics m) = length (styles m)
     \<and> fallback_styles (statistics m) = length (fallbacks m)"
  using assms by (simp add: generate_html_semantic_mappings_def Let_def)

lemma generate_html_semantic_mappings_Inl:
  "process_styles (styles_data self) ([], [], []) = Inl e \<Longrightarrow>
   generate_html_semantic_mappings self = Inl e"
  by (simp add: generate_html_semantic_mappings_def)

lemma generate_html_semantic_mappings_total:
  assumes "well_formed (styles_data self)"
  obtains m m0 w f where
    "process_styles (styles_data self) ([], [], []) = Inr (m0, w, f)"
    "generate_html_semantic_mappings self = Inr (m, self\<lparr>style_manifest := Some m\<rparr>)"
    "version m = ''1.0''"
    "styles m = ensure_basic_mappings m0" "fallbacks m = f" "warnings m = w"
    "vocabulary m = map fst (html_vocabulary self)"
    "total_styles_found (statistics m) = length (styles_data self)"
    "mapped_styles (statistics m) = length (styles m)"
    "fallback_styles (statistics m) = length (fallbacks m)"
proof -
  from process_styles_total [OF assms] obtain st' where
    "process_styles (styles_data self) ([], [], []) = Inr st'" by blast
  then obtain m0 w f where p: "process_styles (styles_data self) ([], [], []) = Inr (m0, w, f)"
    by (cases st') auto
  from generate_html_semantic_mappings_Inr [OF p] p that show thesis by blast
qed

subsection \<open>Evaluating the sample inputs\<close>

lemmas sample_simps = parser_with_def xml_style_def style_entry_def init_def

lemma manifest_of_eq:
  "generate_html_semantic_mappings self = Inr (m, self') \<Longrightarrow> manifest_of self = Some m"
  by (simp add: manifest_of_def)

subsection \<open>The essential tags\<close>

lemma essentials_keys:
  "fst ` set essentials = {''h1'', ''h2'', ''p'', ''table.StdTable''}"
  by (simp add: essentials_def insert_commute)

lemma distinct_essentials: "distinct (map fst essentials)"
  by (simp add: essentials_def)

lemma process_styles_from_empty_untouched:
  assumes "process_styles d ([], [], []) = Inr (m0, w, f)"
    and "\<forall>item \<in> set d. match_tag (snd item) \<noteq> Some t"
  shows "map_of m0 t = None"
  using process_styles_untouched [OF assms] by simp

subsection \<open>The last match decides\<close>

lemma ensure_basic_mappings_keeps:
  "map_of m0 t = Some n \<Longrightarrow> map_of (ensure_basic_mappings m0) t = Some n"
  by (simp add: ensure_basic_mappings_def map_of_ensure_each)

lemma process_styles_last_match:
  assumes "process_styles (pre @ item # post) st = Inr (m', w', f')"
    and "match_tag (snd item) = Some t" and "sd_name (snd item) = Some n"
    and "\<forall>later \<in> set post. match_tag (snd later) \<noteq> Some t"
  shows "map_of m' t = Some n"
proof -
  from assms(1) obtain st1 where a: "process_styles pre st = Inr st1"
    and b: "process_styles (item # post) st1 = Inr (m', w', f')"
    by (cases "process_styles pre st") (simp_all add: process_styles_append)
  from b obtain st2 where c: "process_style item st1 = Inr st2"
    and d: "process_styles post st2 = Inr (m', w', f')"
    by (rule process_styles_Cons_Inr)
  obtain m1 w1 f1 where st1: "st1 = (m1, w1, f1)" by (cases st1) auto
  obtain m2 w2 f2 where st2: "st2 = (m2, w2, f2)" by (cases st2) auto
  from assms(2) have cons: "considered (sd_type (snd item))"
    by (simp add: match_tag_def split: if_splits)
  with assms(2,3) have "map_style_to_html n (sd_type (snd item)) = Some t"
    by (simp add: match_tag_def)
  with cons assms(3) have "process_style item (m1, w1, f1) = Inr (AList.update t n m1, w1, f1)"
    by (rule process_style_matched)
  with c st1 st2 have "m2 = AList.update t n m1" by simp
  then have "map_of m2 t = Some n" by (simp add: update_conv')
  moreover from d st2 assms(4) have "map_of m' t = map_of m2 t"
    using process_styles_untouched by simp
  ultimately show ?thesis by simp
qed

lemma heading_then_title_catalog:
  "styles_data heading_then_title =
     [style_entry (xml_style ''Heading1'' ''paragraph'' ''Heading 1'')] @
     style_entry (xml_style ''Title'' ''paragraph'' ''Title'') # []"
  by (simp add: heading_then_title_def sample_simps)

subsection \<open>The classification\<close>

lemma classification_eq:
  "classification self =
     (case process_styles (styles_data self) ([], [], []) of
        Inl e \<Rightarrow> Inl e
      | Inr st \<Rightarrow> Inr (ensure_basic_mappings (fst st), snd (snd st), fst (snd st)))"
  by (simp add: classification_def generate_html_semantic_mappings_def Let_def
      split: sum.splits prod.splits)

subsection \<open>The vocabulary\<close>

lemma reachable_tags_in_vocabulary:
  "set reachable_tags \<subseteq> set (map fst (html_vocabulary (init path)))"
  by (simp add: reachable_tags_def init_def)

lemma essentials_reachable: "fst ` set essentials \<subseteq> set reachable_tags"
  by (simp add: essentials_def reachable_tags_def)

lemma match_tag_range: "match_tag sd = Some t \<Longrightarrow> t \<in> set reachable_tags"
  by (auto simp: match_tag_def dest: map_style_to_html_range split: if_splits option.splits)

lemma length_vocabulary: "length (html_vocabulary (init path)) = 9"
  by (simp add: init_def)

lemma card_essential_keys: "card {''h1'', ''h2'', ''p'', ''table.StdTable''} = 4"
  by simp

subsection \<open>The pipeline on a package it cannot read\<close>

lemma unreadable_read_styles: "unreadable pkg \<Longrightarrow> \<exists>e. read_styles pkg = Inl e"
  by (simp add: unreadable_def read_styles_def split: package.splits option.splits)

lemma extract_styles_xml_unreadable:
  assumes "unreadable (package env)"
  shows "extract_styles_xml env self = ([], self)"
proof -
  from assms obtain e where "read_styles (package env) = Inl e"
    using unreadable_read_styles by blast
  then show ?thesis by (simp add: extract_styles_xml_def)
qed

lemma extract_numbering_xml_frame:
  "styles_data (snd (extract_numbering_xml env self)) = styles_data self
   \<and> html_vocabulary (snd (extract_numbering_xml env self)) = html_vocabulary self
   \<and> document_structure (snd (extract_numbering_xml env self)) = document_structure self"
  by (simp add: extract_numbering_xml_def split: sum.splits option.splits)

lemma analyze_document_structure_frame:
  "styles_data (snd (analyze_document_structure env self)) = styles_data self
   \<and> html_vocabulary (snd (analyze_document_structure env self)) = html_vocabulary self"
  by (simp add: analyze_document_structure_def split: sum.splits)

lemma analyze_document_structure_result:
  "document_structure self = [] \<Longrightarrow>
   document_structure (snd (analyze_document_structure env self)) = structure_of env"
  by (simp add: structure_of_def analyze_document_structure_def init_def
      split: sum.splits)

lemma generate_empty_catalog:
  assumes "styles_data self = []" and "html_vocabulary self = html_vocabulary (init path)"
  shows "generate_html_semantic_mappings self =
     Inr (defaults_manifest, self\<lparr>style_manifest := Some defaults_manifest\<rparr>)"
  using assms
  by (simp add: generate_html_semantic_mappings_def defaults_manifest_def
      ensure_basic_mappings_def essentials_def init_def Let_def)

lemma pipeline_after_generate:
  assumes "generate_html_semantic_mappings
             (snd (analyze_document_structure env
                (snd (extract_numbering_xml env (snd (extract_styles_xml env self))))))
           = Inr (m, self4)"
  shows "process_full_pipeline env output_dir self =
     (if output_dir = None \<or> output_dir = Some []
      then Success (style_manifest self4) (document_structure self4) []
      else (case written env of
              Inl e \<Rightarrow> Failure e
            | Inr outputs \<Rightarrow> Success (style_manifest self4) (document_structure self4) outputs))"
  using assms
  by (simp add: process_full_pipeline_def save_outputs_def Let_def split: option.splits)

subsection \<open>The extraction loop\<close>

lemma fst_style_entry: "fst (style_entry e) = styleId_attr e"
  by (simp add: style_entry_def Let_def)

lemma snd_style_entry:
  "snd (style_entry e) =
     \<lparr> sd_name = (case name_children e of [] \<Rightarrow> styleId_attr e | v # _ \<Rightarrow> v),
       sd_type = type_attr e,
       sd_basedOn = (case basedOn_children e of [] \<Rightarrow> None | v # _ \<Rightarrow> v),
       sd_xmlElement = e \<rparr>"
  by (simp add: style_entry_def Let_def)

lemma collect_styles_append:
  "collect_styles (a @ b) acc = collect_styles b (collect_styles a acc)"
  by (induction a arbitrary: acc) simp_all

lemma collect_styles_keys:
  "fst ` set (collect_styles elems acc) = fst ` set acc \<union> styleId_attr ` set elems"
  by (induction elems arbitrary: acc) (auto simp: dom_update fst_style_entry)

lemma collect_styles_untouched:
  "\<forall>later \<in> set elems. styleId_attr later \<noteq> k \<Longrightarrow>
   map_of (collect_styles elems acc) k = map_of acc k"
  by (induction elems arbitrary: acc) (auto simp: update_conv' fst_style_entry)

lemma collect_styles_last:
  assumes "\<forall>later \<in> set post. styleId_attr later \<noteq> styleId_attr e"
  shows "map_of (collect_styles (pre @ e # post) acc) (styleId_attr e) = Some (snd (style_entry e))"
proof -
  have "collect_styles (pre @ e # post) acc =
      collect_styles post
        (AList.update (styleId_attr e) (snd (style_entry e)) (collect_styles pre acc))"
    by (simp add: collect_styles_append fst_style_entry)
  with assms show ?thesis
    by (simp add: collect_styles_untouched update_conv')
qed

subsection \<open>Catalogs that are not well formed\<close>

text \<open>A considered style without a name makes the classification raise, so the well-formed
  catalogs are exactly those on which it returns a manifest.\<close>

lemma process_styles_raises:
  "\<not> well_formed d \<Longrightarrow> process_styles d st = Inl AttributeError"
proof (induction d arbitrary: st)
  case Nil
  then show ?case by (simp add: well_formed_def)
next
  case (Cons item rest)
  show ?case
  proof (cases "considered (sd_type (snd item)) \<and> sd_name (snd item) = None")
    case True
    then have "process_style item st = Inl AttributeError"
      by (simp add: process_style_no_name)
    then show ?thesis by simp
  next
    case False
    then have ok: "considered (sd_type (snd item)) \<longrightarrow> sd_name (snd item) \<noteq> None" by simp
    with Cons.prems have "\<not> well_formed rest" by (auto simp: well_formed_def)
    moreover from ok obtain st1 where "process_style item st = Inr st1"
      using process_style_total by blast
    ultimately show ?thesis using Cons.IH by simp
  qed
qed

lemma generate_html_semantic_mappings_raises:
  "\<not> well_formed (styles_data self) \<Longrightarrow>
   generate_html_semantic_mappings self = Inl AttributeError"
  by (simp add: process_styles_raises generate_html_semantic_mappings_Inl)

subsection \<open>The fallback branch\<close>

text \<open>A style of type \<open>table\<close> is matched by rule 8 at the latest, so it never takes the
  fallback branch; and the text of a warning, spelled out.\<close>

lemma unmatched_styles_not_table:
  "(n, ty) \<in> set (unmatched_styles d) \<Longrightarrow> ty \<noteq> Some ''table''"
  using unmatched_styles_unmatched [of n ty d] map_style_to_html_table [of n] by auto

lemma warning_text_spelled:
  "warning_text n (generate_fallback_mapping n ty) =
     ''Unknown style '' @ [CHR 0x27] @ n @ [CHR 0x27] @ '' mapped to '' @ [CHR 0x27]
       @ (if ty = Some ''table'' then ''table.StdTable'' else ''p'') @ [CHR 0x27]"
  by (simp add: warning_text_def quote_def generate_fallback_mapping_def)

subsection \<open>C1: a package that cannot be read\<close>

text \<open>
  Claim C1 as stated fails: \<open>extract_styles_xml\<close> catches every exception of its
  \<open>try\<close> block and returns \<open>{}\<close>, so nothing reaches the \<open>except\<close> clause of
  \<open>process_full_pipeline\<close>. On a file that is no archive the run returns a success
  result that carries a manifest.
\<close>

theorem C1_counterexample:
  "unreadable (package not_a_zip)
   \<and> process_full_pipeline not_a_zip None (init ''broken.docx'')
       = Success (Some defaults_manifest) [] []
   \<and> success (process_full_pipeline not_a_zip None (init ''broken.docx''))"
  by (simp add: not_a_zip_def unreadable_def success_def process_full_pipeline_def
      extract_styles_xml_def read_styles_def extract_numbering_xml_def read_numbering_def
      analyze_document_structure_def read_structure_def
      generate_html_semantic_mappings_def init_def
      ensure_basic_mappings_def essentials_def defaults_manifest_def)


text \<open>
  Claim C1, amended. When the file is no readable archive, or the archive has no
  \<open>word/styles.xml\<close>, \<open>extract_styles_xml\<close> returns the empty catalog and leaves the
  parser as it was, and the run goes on: \<open>process_full_pipeline\<close> on a fresh parser
  returns a success result whose manifest is the one of the empty catalog (the four
  default mappings, no fallbacks, no warnings, \<open>total_styles_found = 0\<close>). It returns a
  failure result only when an output directory is given and writing the outputs raises.
\<close>

theorem C1_unreadable_package:
  assumes "unreadable (package env)"
  shows "extract_styles_xml env self = ([], self)
     \<and> process_full_pipeline env output_dir (init path) =
         (if output_dir = None \<or> output_dir = Some []
          then Success (Some defaults_manifest) (structure_of env) []
          else (case written env of
                  Inl e \<Rightarrow> Failure e
                | Inr outputs \<Rightarrow> Success (Some defaults_manifest) (structure_of env) outputs))"
proof
  show "extract_styles_xml env self = ([], self)"
    using assms by (rule extract_styles_xml_unreadable)
next
  let ?self1 = "snd (extract_styles_xml env (init path))"
  let ?self2 = "snd (extract_numbering_xml env ?self1)"
  let ?self3 = "snd (analyze_document_structure env ?self2)"
  have s1: "?self1 = init path"
    using assms by (simp add: extract_styles_xml_unreadable)
  have i: "styles_data (init path) = []" "document_structure (init path) = []"
    by (simp_all add: init_def)
  have sd: "styles_data ?self3 = []"
    by (simp add: s1 i analyze_document_structure_frame extract_numbering_xml_frame)
  have hv: "html_vocabulary ?self3 = html_vocabulary (init path)"
    by (simp add: s1 analyze_document_structure_frame extract_numbering_xml_frame)
  have ds: "document_structure ?self3 = structure_of env"
    by (simp add: s1 i analyze_document_structure_result extract_numbering_xml_frame)
  have g: "generate_html_semantic_mappings ?self3 =
      Inr (defaults_manifest, ?self3\<lparr>style_manifest := Some defaults_manifest\<rparr>)"
    using sd hv by (rule generate_empty_catalog)
  show "process_full_pipeline env output_dir (init path) =
         (if output_dir = None \<or> output_dir = Some []
          then Success (Some defaults_manifest) (structure_of env) []
          else (case written env of
                  Inl e \<Rightarrow> Failure e
                | Inr outputs \<Rightarrow> Success (Some defaults_manifest) (structure_of env) outputs))"
    unfolding pipeline_after_generate [OF g] by (simp add: ds split: sum.splits)
qed


text \<open>An archive without \<open>word/styles.xml\<close>, with an output directory: success, the
  defaults manifest, and the three output files.\<close>

theorem C1_unreadable_package_witness:
  "unreadable (package no_styles_member)
   \<and> extract_styles_xml no_styles_member (init ''sample.docx'') = ([], init ''sample.docx'')
   \<and> process_full_pipeline no_styles_member (Some ''out'') (init ''sample.docx'')
       = Success (Some defaults_manifest) [Paragraph ''Hello'' (Some ''Normal'') ''Hello'']
           [(''manifest'', ''out/sample_styleManifest.json''),
            (''html_preview'', ''out/sample_preview.html''),
            (''report'', ''out/sample_report.json'')]
   \<and> success (process_full_pipeline no_styles_member (Some ''out'') (init ''sample.docx''))"
proof -
  have u: "unreadable (package no_styles_member)"
    by (simp add: no_styles_member_def unreadable_def)
  have w: "written no_styles_member =
      Inr [(''manifest'', ''out/sample_styleManifest.json''),
           (''html_preview'', ''out/sample_preview.html''),
           (''report'', ''out/sample_report.json'')]"
    by (simp add: no_styles_member_def)
  have st: "structure_of no_styles_member = [Paragraph ''Hello'' (Some ''Normal'') ''Hello'']"
    by (simp add: structure_of_def no_styles_member_def analyze_document_structure_def
        read_structure_def paragraph_element_def init_def Let_def)
  from C1_unreadable_package [OF u, of "init ''sample.docx''" "Some ''out''" "''sample.docx''"]
  show ?thesis
    by (simp add: u w st success_def)
qed

subsection \<open>C2: a style element without its identifier\<close>

text \<open>
  Claim C2 as stated fails: \<open>style_elem.get\<close> returns \<open>None\<close> for an absent
  \<open>w:styleId\<close> and the loop stores the element under that key. Extraction of a payload
  that holds such an element returns a catalog; no error is raised.
\<close>

theorem C2_counterexample:
  "styleId_attr orphan_style = None
   \<and> read_styles (package missing_style_id) =
       Inr [(Some ''Normal'', snd (style_entry (xml_style ''Normal'' ''paragraph'' ''Normal''))),
            (None, \<lparr> sd_name = Some ''Orphan'', sd_type = Some ''paragraph'',
                     sd_basedOn = None, sd_xmlElement = orphan_style \<rparr>),
            (Some ''Title'', snd (style_entry (xml_style ''Title'' ''paragraph'' ''Title'')))]"
  by (simp add: missing_style_id_def orphan_style_def read_styles_def style_entry_def
      xml_style_def)


text \<open>
  Claim C2, amended. A style element without \<open>w:styleId\<close> does not make extraction
  fail. Once the payload parses, \<open>extract_styles_xml\<close> returns a catalog and stores it in
  the parser; the keys of the catalog are the identifiers of all style elements, so no
  element is skipped; the element without identifier is recorded under the key \<open>None\<close>
  with its own type and \<open>basedOn\<close>, and with the name of its first \<open>w:name\<close> child,
  \<open>None\<close> when it has none (when several elements lack the identifier, the last one's
  data is kept).
\<close>

theorem C2_missing_style_id:
  assumes "package env = Zip (Some (Parsed (pre @ e # post))) numbering"
    and "styleId_attr e = None"
    and "\<forall>later \<in> set post. styleId_attr later \<noteq> None"
  shows "\<exists>d. read_styles (package env) = Inr d
     \<and> extract_styles_xml env self = (d, self\<lparr>styles_data := d\<rparr>)
     \<and> fst ` set d = styleId_attr ` set (pre @ e # post)
     \<and> None \<in> fst ` set d
     \<and> map_of d None =
         Some \<lparr> sd_name = (case name_children e of [] \<Rightarrow> None | v # _ \<Rightarrow> v),
                sd_type = type_attr e,
                sd_basedOn = (case basedOn_children e of [] \<Rightarrow> None | v # _ \<Rightarrow> v),
                sd_xmlElement = e \<rparr>"
proof -
  let ?d = "collect_styles (pre @ e # post) []"
  have r: "read_styles (package env) = Inr ?d"
    using assms(1) by (simp add: read_styles_def)
  then have x: "extract_styles_xml env self = (?d, self\<lparr>styles_data := ?d\<rparr>)"
    by (simp add: extract_styles_xml_def)
  have k: "fst ` set ?d = styleId_attr ` set (pre @ e # post)"
    using collect_styles_keys [of "pre @ e # post" "[]"] by simp
  have n: "None \<in> fst ` set ?d"
    unfolding k using assms(2) by force
  have "\<forall>later \<in> set post. styleId_attr later \<noteq> styleId_attr e"
    using assms(2,3) by simp
  then have "map_of ?d (styleId_attr e) = Some (snd (style_entry e))"
    by (rule collect_styles_last)
  then have v: "map_of ?d None =
         Some \<lparr> sd_name = (case name_children e of [] \<Rightarrow> None | v # _ \<Rightarrow> v),
                sd_type = type_attr e,
                sd_basedOn = (case basedOn_children e of [] \<Rightarrow> None | v # _ \<Rightarrow> v),
                sd_xmlElement = e \<rparr>"
    using assms(2) by (simp add: snd_style_entry split: list.splits)
  show ?thesis
    using r x k n v by - (rule exI [of _ ?d], intro conjI, assumption+)
qed


text \<open>The sample payload: three style elements, the second without identifier; the
  catalog has three entries, the one under \<open>None\<close> named ``Orphan''.\<close>

theorem C2_missing_style_id_witness:
  "package missing_style_id =
     Zip (Some (Parsed ([xml_style ''Normal'' ''paragraph'' ''Normal''] @
                        orphan_style # [xml_style ''Title'' ''paragraph'' ''Title''])))
         None
   \<and> styleId_attr orphan_style = None
   \<and> (\<exists>d. read_styles (package missing_style_id) = Inr d
        \<and> length d = 3
        \<and> map_of d None =
            Some \<lparr> sd_name = Some ''Orphan'', sd_type = Some ''paragraph'',
                   sd_basedOn = None, sd_xmlElement = orphan_style \<rparr>)"
proof -
  have p: "package missing_style_id =
     Zip (Some (Parsed ([xml_style ''Normal'' ''paragraph'' ''Normal''] @
                        orphan_style # [xml_style ''Title'' ''paragraph'' ''Title''])))
         None"
    by (simp add: missing_style_id_def)
  have o: "styleId_attr orphan_style = None"
    by (simp add: orphan_style_def)
  have l: "\<forall>later \<in> set [xml_style ''Title'' ''paragraph'' ''Title'']. styleId_attr later \<noteq> None"
    by (simp add: xml_style_def)
  from C2_missing_style_id [OF p o l] obtain d where
    r: "read_styles (package missing_style_id) = Inr d"
    and v: "map_of d None =
         Some \<lparr> sd_name = (case name_children orphan_style of [] \<Rightarrow> None | v # _ \<Rightarrow> v),
                sd_type = type_attr orphan_style,
                sd_basedOn = (case basedOn_children orphan_style of [] \<Rightarrow> None | v # _ \<Rightarrow> v),
                sd_xmlElement = orphan_style \<rparr>"
    by blast
  have n: "length d = 3"
    using r by (auto simp: missing_style_id_def orphan_style_def read_styles_def
        style_entry_def xml_style_def)
  have v': "map_of d None =
            Some \<lparr> sd_name = Some ''Orphan'', sd_type = Some ''paragraph'',
                   sd_basedOn = None, sd_xmlElement = orphan_style \<rparr>"
    using v by (simp add: orphan_style_def)
  from p o r n v' show ?thesis by blast
qed

subsection \<open>C3: the statistics of the manifest\<close>

text \<open>
  Claim C3 as stated fails: \<open>total_styles_found\<close> is \<open>len(self.styles_data)\<close>, which
  counts every extracted style. For a catalog holding one style of type \<open>character\<close>
  the manifest reports one style found, although no style is considered.
\<close>

theorem C3_counterexample:
  "map_option statistics (manifest_of character_only) =
     Some \<lparr> total_styles_found = 1, mapped_styles = 4, fallback_styles = 0 \<rparr>
   \<and> length (considered_styles (styles_data character_only)) = 0"
  by (simp add: character_only_def sample_simps manifest_of_def considered_styles_def
      generate_html_semantic_mappings_def process_style_def considered_def
      ensure_basic_mappings_def essentials_def Let_def)


text \<open>
  Claim C3, amended. For a well-formed catalog the manifest is produced and its statistics
  are: \<open>total_styles_found\<close> the number of all styles of the catalog, whatever their
  type (the considered ones and the skipped ones together), \<open>mapped_styles\<close> the length
  of the final \<open>styles\<close> dictionary (defaults included), \<open>fallback_styles\<close> the length
  of \<open>fallbacks\<close>.
\<close>

theorem C3_statistics:
  assumes "well_formed (styles_data self)"
  shows "\<exists>m. generate_html_semantic_mappings self = Inr (m, self\<lparr>style_manifest := Some m\<rparr>)
     \<and> total_styles_found (statistics m) = length (styles_data self)
     \<and> total_styles_found (statistics m) =
         length (considered_styles (styles_data self))
         + length (filter (\<lambda>item. \<not> considered (sd_type (snd item))) (styles_data self))
     \<and> mapped_styles (statistics m) = length (styles m)
     \<and> fallback_styles (statistics m) = length (fallbacks m)"
proof -
  from assms obtain m m0 w f where
    g: "generate_html_semantic_mappings self = Inr (m, self\<lparr>style_manifest := Some m\<rparr>)"
    and t: "total_styles_found (statistics m) = length (styles_data self)"
    and ms: "mapped_styles (statistics m) = length (styles m)"
    and fs: "fallback_styles (statistics m) = length (fallbacks m)"
    by (rule generate_html_semantic_mappings_total)
  have "length (styles_data self) =
      length (considered_styles (styles_data self))
      + length (filter (\<lambda>item. \<not> considered (sd_type (snd item))) (styles_data self))"
    unfolding considered_styles_def by (rule sum_length_filter_compl [symmetric])
  with g t ms fs show ?thesis by simp
qed


text \<open>The catalog with one \<open>character\<close> style is well formed, and the theorem gives its
  statistics.\<close>

theorem C3_statistics_witness:
  "well_formed (styles_data character_only)
   \<and> (\<exists>m. manifest_of character_only = Some m
        \<and> total_styles_found (statistics m) = 1
        \<and> length (considered_styles (styles_data character_only)) = 0
        \<and> mapped_styles (statistics m) = length (styles m)
        \<and> fallback_styles (statistics m) = length (fallbacks m))"
proof -
  have wf: "well_formed (styles_data character_only)"
    by (simp add: character_only_def sample_simps well_formed_def considered_def)
  have n: "length (styles_data character_only) = 1"
    by (simp add: character_only_def sample_simps)
  have c: "length (considered_styles (styles_data character_only)) = 0"
    by (simp add: character_only_def sample_simps considered_styles_def considered_def)
  from C3_statistics [OF wf] obtain m where
    "generate_html_semantic_mappings character_only = Inr (m, character_only\<lparr>style_manifest := Some m\<rparr>)"
    "total_styles_found (statistics m) = length (styles_data character_only)"
    "mapped_styles (statistics m) = length (styles m)"
    "fallback_styles (statistics m) = length (fallbacks m)"
    by blast
  with wf n c show ?thesis by (simp add: manifest_of_def)
qed

subsection \<open>C4: rule order and the unreachable tag\<close>

text \<open>
  Claim C4. \<open>_map_style_to_html\<close> is the top-to-bottom, first-match-wins scan of the
  specification's rule list, in which rule 4 (``body'' or ``normal'') stands before rule 5
  (``body text''). So a name whose lower-cased form contains ``body'' and that fails rules
  1 to 3 is given \<open>p\<close>, and no name and no type make the function return \<open>p.BodyText\<close>.
\<close>

theorem C4_rule_order:
  "map_style_to_html n ty = first_match heuristic_rules (lower n) ty
   \<and> (str_in ''body'' (lower n)
        \<and> \<not> (str_in ''heading 1'' (lower n) \<or> lower n = ''title'')
        \<and> \<not> (str_in ''heading 2'' (lower n) \<or> str_in ''subtitle'' (lower n))
        \<and> \<not> str_in ''heading 3'' (lower n)
      \<longrightarrow> map_style_to_html n ty = Some ''p'')
   \<and> map_style_to_html n ty \<noteq> Some ''p.BodyText''"
proof (intro conjI impI)
  show "map_style_to_html n ty = first_match heuristic_rules (lower n) ty"
    by (rule map_style_to_html_first_match)
next
  assume "str_in ''body'' (lower n)
        \<and> \<not> (str_in ''heading 1'' (lower n) \<or> lower n = ''title'')
        \<and> \<not> (str_in ''heading 2'' (lower n) \<or> str_in ''subtitle'' (lower n))
        \<and> \<not> str_in ''heading 3'' (lower n)"
  then show "map_style_to_html n ty = Some ''p''"
    by (simp add: map_style_to_html_def Let_def)
next
  show "map_style_to_html n ty \<noteq> Some ''p.BodyText''"
    by (rule map_style_to_html_not_BodyText)
qed

text \<open>At the name ``Body Text'' rules 1 to 3 fail, rule 5's test holds, and the result is
  \<open>p\<close>.\<close>

theorem C4_rule_order_witness:
  "str_in ''body'' (lower ''Body Text'')
   \<and> \<not> (str_in ''heading 1'' (lower ''Body Text'') \<or> lower ''Body Text'' = ''title'')
   \<and> \<not> (str_in ''heading 2'' (lower ''Body Text'') \<or> str_in ''subtitle'' (lower ''Body Text''))
   \<and> \<not> str_in ''heading 3'' (lower ''Body Text'')
   \<and> str_in ''body text'' (lower ''Body Text'')
   \<and> map_style_to_html ''Body Text'' (Some ''paragraph'') = Some ''p''"
  using C4_rule_order [of "''Body Text''" "Some ''paragraph''"]
  by (simp add: lower_simps first_match_def heuristic_rules_def)

subsection \<open>C5: the essential tags are always present\<close>

text \<open>
  Claim C5. For every well-formed catalog, the empty one included, classification returns
  a manifest (it does not raise), and the \<open>styles\<close> dictionary of that manifest has the
  keys \<open>h1\<close>, \<open>h2\<close>, \<open>p\<close> and \<open>table.StdTable\<close>. An essential tag that no style
  of the catalog is matched to carries its placeholder name (``Heading 1'', ``Heading 2'',
  ``Normal'', ``Table Grid''). On the empty catalog the dictionary is exactly these four
  defaults.
\<close>

theorem C5_essential_tags:
  assumes "well_formed (styles_data self)"
  shows "\<exists>m. generate_html_semantic_mappings self = Inr (m, self\<lparr>style_manifest := Some m\<rparr>)
     \<and> {''h1'', ''h2'', ''p'', ''table.StdTable''} \<subseteq> fst ` set (styles m)
     \<and> (\<forall>(t, default_style) \<in>
            {(''h1'', ''Heading 1''), (''h2'', ''Heading 2''), (''p'', ''Normal''),
             (''table.StdTable'', ''Table Grid'')}.
          (\<forall>item \<in> set (styles_data self). match_tag (snd item) \<noteq> Some t)
          \<longrightarrow> map_of (styles m) t = Some default_style)
     \<and> (styles_data self = [] \<longrightarrow>
          styles m = [(''h1'', ''Heading 1''), (''h2'', ''Heading 2''), (''p'', ''Normal''),
                      (''table.StdTable'', ''Table Grid'')])"
proof -
  from assms obtain m m0 w f where
    p: "process_styles (styles_data self) ([], [], []) = Inr (m0, w, f)"
    and g: "generate_html_semantic_mappings self = Inr (m, self\<lparr>style_manifest := Some m\<rparr>)"
    and s: "styles m = ensure_basic_mappings m0"
    by (rule generate_html_semantic_mappings_total)
  have keys: "{''h1'', ''h2'', ''p'', ''table.StdTable''} \<subseteq> fst ` set (styles m)"
    unfolding s ensure_basic_mappings_def keys_ensure_each essentials_keys by simp
  have defaults: "map_of (styles m) t = Some default_style"
    if "(t, default_style) \<in> set essentials"
      and "\<forall>item \<in> set (styles_data self). match_tag (snd item) \<noteq> Some t"
    for t default_style
  proof -
    from p that(2) have "map_of m0 t = None"
      by (rule process_styles_from_empty_untouched)
    moreover from that(1) have "map_of essentials t = Some default_style"
      using distinct_essentials by simp
    ultimately show ?thesis
      by (simp add: s ensure_basic_mappings_def map_of_ensure_each)
  qed
  have empty: "styles m = essentials" if "styles_data self = []"
  proof -
    from p that have "m0 = []" by simp
    then show ?thesis by (simp add: s ensure_basic_mappings_empty)
  qed
  have set_ess: "set essentials =
     {(''h1'', ''Heading 1''), (''h2'', ''Heading 2''), (''p'', ''Normal''),
      (''table.StdTable'', ''Table Grid'')}"
    by (simp add: essentials_def)
  have "\<forall>(t, default_style) \<in> set essentials.
          (\<forall>item \<in> set (styles_data self). match_tag (snd item) \<noteq> Some t)
          \<longrightarrow> map_of (styles m) t = Some default_style"
    using defaults by blast
  then have d': "\<forall>(t, default_style) \<in>
            {(''h1'', ''Heading 1''), (''h2'', ''Heading 2''), (''p'', ''Normal''),
             (''table.StdTable'', ''Table Grid'')}.
          (\<forall>item \<in> set (styles_data self). match_tag (snd item) \<noteq> Some t)
          \<longrightarrow> map_of (styles m) t = Some default_style"
    unfolding set_ess .
  have e': "styles_data self = [] \<longrightarrow>
          styles m = [(''h1'', ''Heading 1''), (''h2'', ''Heading 2''), (''p'', ''Normal''),
                      (''table.StdTable'', ''Table Grid'')]"
    using empty by (simp add: essentials_def)
  from g keys d' e' show ?thesis by blast
qed

text \<open>The catalog of a fresh parser is empty, hence well formed, and its manifest holds
  the four defaults.\<close>

theorem C5_essential_tags_witness:
  "well_formed (styles_data (init ''empty.docx''))
   \<and> styles_data (init ''empty.docx'') = []
   \<and> (\<exists>m. manifest_of (init ''empty.docx'') = Some m
        \<and> styles m = [(''h1'', ''Heading 1''), (''h2'', ''Heading 2''), (''p'', ''Normal''),
                      (''table.StdTable'', ''Table Grid'')]
        \<and> map_of (styles m) ''h1'' = Some ''Heading 1'')"
proof -
  have wf: "well_formed (styles_data (init ''empty.docx''))"
    by (simp add: init_def well_formed_def)
  have e: "styles_data (init ''empty.docx'') = []"
    by (simp add: init_def)
  from C5_essential_tags [OF wf] e obtain m where
    g: "generate_html_semantic_mappings (init ''empty.docx'') =
          Inr (m, (init ''empty.docx'')\<lparr>style_manifest := Some m\<rparr>)"
    and s: "styles m = [(''h1'', ''Heading 1''), (''h2'', ''Heading 2''), (''p'', ''Normal''),
                      (''table.StdTable'', ''Table Grid'')]"
    by blast
  from g have "manifest_of (init ''empty.docx'') = Some m" by (rule manifest_of_eq)
  with wf e s show ?thesis by simp
qed

subsection \<open>C6: last write wins\<close>

text \<open>
  Claim C6. When several styles of the catalog are matched to one tag, the manifest
  records under that tag the name of the last of them in the catalog's order: if a style
  named \<open>n\<close> is matched to \<open>t\<close> and no style after it is, then \<open>styles[t] = n\<close>,
  whatever was matched to \<open>t\<close> before it.
\<close>

theorem C6_last_write_wins:
  assumes "well_formed (styles_data self)"
    and "styles_data self = pre @ item # post"
    and "match_tag (snd item) = Some t" and "sd_name (snd item) = Some n"
    and "\<forall>later \<in> set post. match_tag (snd later) \<noteq> Some t"
  shows "\<exists>m. generate_html_semantic_mappings self = Inr (m, self\<lparr>style_manifest := Some m\<rparr>)
     \<and> map_of (styles m) t = Some n"
proof -
  from assms(1) obtain m m0 w f where
    p: "process_styles (styles_data self) ([], [], []) = Inr (m0, w, f)"
    and g: "generate_html_semantic_mappings self = Inr (m, self\<lparr>style_manifest := Some m\<rparr>)"
    and s: "styles m = ensure_basic_mappings m0"
    by (rule generate_html_semantic_mappings_total)
  from p assms(2) have "process_styles (pre @ item # post) ([], [], []) = Inr (m0, w, f)"
    by simp
  then have "map_of m0 t = Some n"
    using assms(3,4,5) by (rule process_styles_last_match)
  then have "map_of (styles m) t = Some n"
    unfolding s by (rule ensure_basic_mappings_keeps)
  with g show ?thesis by blast
qed

text \<open>The instance of the claim: paragraph styles ``Heading 1'' and ``Title'', in that
  order, are both matched to \<open>h1\<close>, and the manifest has \<open>styles["h1"] = "Title"\<close>.\<close>

theorem C6_last_write_wins_witness:
  "well_formed (styles_data heading_then_title)
   \<and> map (\<lambda>item. (sd_name (snd item), sd_type (snd item), match_tag (snd item)))
        (styles_data heading_then_title) =
       [(Some ''Heading 1'', Some ''paragraph'', Some ''h1''),
        (Some ''Title'', Some ''paragraph'', Some ''h1'')]
   \<and> (\<exists>m. manifest_of heading_then_title = Some m \<and> map_of (styles m) ''h1'' = Some ''Title'')"
proof -
  have wf: "well_formed (styles_data heading_then_title)"
    by (simp add: heading_then_title_def sample_simps well_formed_def)
  have tags: "map (\<lambda>item. (sd_name (snd item), sd_type (snd item), match_tag (snd item)))
        (styles_data heading_then_title) =
       [(Some ''Heading 1'', Some ''paragraph'', Some ''h1''),
        (Some ''Title'', Some ''paragraph'', Some ''h1'')]"
    by (simp add: heading_then_title_def sample_simps match_tag_def considered_def
        map_style_to_html_def lower_simps)
  have mt: "match_tag (snd (style_entry (xml_style ''Title'' ''paragraph'' ''Title''))) = Some ''h1''"
    by (simp add: sample_simps match_tag_def considered_def map_style_to_html_def lower_simps)
  have nm: "sd_name (snd (style_entry (xml_style ''Title'' ''paragraph'' ''Title''))) = Some ''Title''"
    by (simp add: sample_simps)
  have post: "\<forall>later \<in> set []. match_tag (snd later) \<noteq> Some ''h1''" by simp
  from C6_last_write_wins [OF wf heading_then_title_catalog mt nm post] obtain m where
    g: "generate_html_semantic_mappings heading_then_title =
          Inr (m, heading_then_title\<lparr>style_manifest := Some m\<rparr>)"
    and h1: "map_of (styles m) ''h1'' = Some ''Title''"
    by blast
  from g have "manifest_of heading_then_title = Some m" by (rule manifest_of_eq)
  with wf tags h1 show ?thesis by blast
qed

subsection \<open>C7: fallbacks and their warnings\<close>

text \<open>
  Claim C7. Every considered style that no rule matches takes the fallback branch. The
  manifest's \<open>warnings\<close> hold, in the catalog's order, exactly one string per such style,
  and the string is \<open>Unknown style '<name>' mapped to '<tag>'\<close> with the style's own name
  and its fallback tag; so there are as many warnings as unmatched considered styles. The
  keys of \<open>fallbacks\<close> are exactly the names of these styles, and \<open>fallbacks[name]\<close> is
  the tag. The tag is \<open>table.StdTable\<close> for the type \<open>table\<close> and \<open>p\<close> otherwise:
  this is what \<open>_generate_fallback_mapping\<close> returns for every name and type. Rule 8
  matches every style of type \<open>table\<close>, so no unmatched style has that type and the tag
  recorded in a manifest is \<open>p\<close>.
\<close>

theorem C7_fallbacks_and_warnings:
  assumes "well_formed (styles_data self)"
  shows "\<exists>m. generate_html_semantic_mappings self = Inr (m, self\<lparr>style_manifest := Some m\<rparr>)
     \<and> warnings m =
         map (\<lambda>(n, ty).
                ''Unknown style '' @ [CHR 0x27] @ n @ [CHR 0x27] @ '' mapped to '' @ [CHR 0x27]
                  @ (if ty = Some ''table'' then ''table.StdTable'' else ''p'') @ [CHR 0x27])
           (unmatched_styles (styles_data self))
     \<and> length (warnings m) = length (unmatched_styles (styles_data self))
     \<and> fst ` set (fallbacks m) = fst ` set (unmatched_styles (styles_data self))
     \<and> (\<forall>(n, ty) \<in> set (unmatched_styles (styles_data self)).
          map_of (fallbacks m) n
            = Some (if ty = Some ''table'' then ''table.StdTable'' else ''p'')
          \<and> ty \<noteq> Some ''table'')
     \<and> generate_fallback_mapping any_name any_type
         = (if any_type = Some ''table'' then ''table.StdTable'' else ''p'')"
proof -
  from assms obtain m m0 w f where
    p: "process_styles (styles_data self) ([], [], []) = Inr (m0, w, f)"
    and g: "generate_html_semantic_mappings self = Inr (m, self\<lparr>style_manifest := Some m\<rparr>)"
    and fb: "fallbacks m = f" and wn: "warnings m = w"
    by (rule generate_html_semantic_mappings_total)
  have "w = map (\<lambda>(n, ty). warning_text n (generate_fallback_mapping n ty))
           (unmatched_styles (styles_data self))"
    using process_styles_warnings [OF p] by simp
  then have W: "warnings m =
         map (\<lambda>(n, ty).
                ''Unknown style '' @ [CHR 0x27] @ n @ [CHR 0x27] @ '' mapped to '' @ [CHR 0x27]
                  @ (if ty = Some ''table'' then ''table.StdTable'' else ''p'') @ [CHR 0x27])
           (unmatched_styles (styles_data self))"
    unfolding wn warning_text_spelled by simp
  then have L: "length (warnings m) = length (unmatched_styles (styles_data self))"
    by simp
  have K: "fst ` set (fallbacks m) = fst ` set (unmatched_styles (styles_data self))"
    using process_styles_fallback_keys [OF p] fb by simp
  have v: "map_of (fallbacks m) n
            = Some (if ty = Some ''table'' then ''table.StdTable'' else ''p'')
          \<and> ty \<noteq> Some ''table''"
    if "(n, ty) \<in> set (unmatched_styles (styles_data self))" for n ty
  proof -
    from that have nt: "ty \<noteq> Some ''table''" by (rule unmatched_styles_not_table)
    from that have "n \<in> fst ` set (unmatched_styles (styles_data self))"
      by force
    then have "map_of f n = Some ''p''"
      using process_styles_fallbacks [OF p, of n] by simp
    with nt fb show ?thesis by simp
  qed
  have V: "\<forall>(n, ty) \<in> set (unmatched_styles (styles_data self)).
          map_of (fallbacks m) n
            = Some (if ty = Some ''table'' then ''table.StdTable'' else ''p'')
          \<and> ty \<noteq> Some ''table''"
    using v by blast
  have F: "generate_fallback_mapping any_name any_type
         = (if any_type = Some ''table'' then ''table.StdTable'' else ''p'')"
    by (simp add: generate_fallback_mapping_def)
  show ?thesis
    using g W L K V F by - (rule exI [of _ m], intro conjI, assumption+)
qed


text \<open>A catalog of five styles: ``Fancy Box'' and ``Side Note'' are the unmatched considered
  ones, in that order. Two warnings with their names, two fallbacks to \<open>p\<close>; the table
  style ``Custom Grid 7'' is matched by rule 8 and is no key of \<open>fallbacks\<close>.\<close>

theorem C7_fallbacks_and_warnings_witness:
  "well_formed (styles_data two_unmatched)
   \<and> unmatched_styles (styles_data two_unmatched)
       = [(''Fancy Box'', Some ''paragraph''), (''Side Note'', Some ''paragraph'')]
   \<and> (\<exists>m. manifest_of two_unmatched = Some m
        \<and> warnings m =
            [''Unknown style '' @ [CHR 0x27] @ ''Fancy Box'' @ [CHR 0x27] @ '' mapped to ''
               @ [CHR 0x27] @ ''p'' @ [CHR 0x27],
             ''Unknown style '' @ [CHR 0x27] @ ''Side Note'' @ [CHR 0x27] @ '' mapped to ''
               @ [CHR 0x27] @ ''p'' @ [CHR 0x27]]
        \<and> length (warnings m) = 2
        \<and> map_of (fallbacks m) ''Fancy Box'' = Some ''p''
        \<and> map_of (fallbacks m) ''Side Note'' = Some ''p''
        \<and> map_of (fallbacks m) ''Custom Grid 7'' = None)
   \<and> generate_fallback_mapping ''Custom Grid 7'' (Some ''table'') = ''table.StdTable''"
proof -
  have wf: "well_formed (styles_data two_unmatched)"
    by (simp add: two_unmatched_def sample_simps well_formed_def)
  have u: "unmatched_styles (styles_data two_unmatched)
       = [(''Fancy Box'', Some ''paragraph''), (''Side Note'', Some ''paragraph'')]"
    by (simp add: two_unmatched_def sample_simps unmatched_styles_def considered_def
        map_style_to_html_def lower_simps)
  from C7_fallbacks_and_warnings [OF wf, of "''Custom Grid 7''" "Some ''table''"] obtain m where
    g: "generate_html_semantic_mappings two_unmatched
          = Inr (m, two_unmatched\<lparr>style_manifest := Some m\<rparr>)"
    and w: "warnings m =
         map (\<lambda>(n, ty).
                ''Unknown style '' @ [CHR 0x27] @ n @ [CHR 0x27] @ '' mapped to '' @ [CHR 0x27]
                  @ (if ty = Some ''table'' then ''table.StdTable'' else ''p'') @ [CHR 0x27])
           (unmatched_styles (styles_data two_unmatched))"
    and k: "fst ` set (fallbacks m) = fst ` set (unmatched_styles (styles_data two_unmatched))"
    and v: "\<forall>(n, ty) \<in> set (unmatched_styles (styles_data two_unmatched)).
          map_of (fallbacks m) n
            = Some (if ty = Some ''table'' then ''table.StdTable'' else ''p'')
          \<and> ty \<noteq> Some ''table''"
    and f: "generate_fallback_mapping ''Custom Grid 7'' (Some ''table'')
         = (if Some ''table'' = Some ''table'' then ''table.StdTable'' else ''p'')"
    by blast
  from g have mo: "manifest_of two_unmatched = Some m" by (rule manifest_of_eq)
  from w have w': "warnings m =
            [''Unknown style '' @ [CHR 0x27] @ ''Fancy Box'' @ [CHR 0x27] @ '' mapped to ''
               @ [CHR 0x27] @ ''p'' @ [CHR 0x27],
             ''Unknown style '' @ [CHR 0x27] @ ''Side Note'' @ [CHR 0x27] @ '' mapped to ''
               @ [CHR 0x27] @ ''p'' @ [CHR 0x27]]"
    by (simp add: u)
  then have l: "length (warnings m) = 2" by simp
  from v have v1: "map_of (fallbacks m) ''Fancy Box'' = Some ''p''"
    and v2: "map_of (fallbacks m) ''Side Note'' = Some ''p''"
    by (simp_all add: u)
  from k have "''Custom Grid 7'' \<notin> fst ` set (fallbacks m)"
    by (simp add: u)
  then have v3: "map_of (fallbacks m) ''Custom Grid 7'' = None"
    by (simp add: map_of_eq_None_iff)
  from f have f': "generate_fallback_mapping ''Custom Grid 7'' (Some ''table'') = ''table.StdTable''"
    by simp
  from wf u mo w' l v1 v2 v3 f' show ?thesis by blast
qed

subsection \<open>C8: styles of other types are skipped silently\<close>

text \<open>
  Claim C8. A style whose type is neither \<open>paragraph\<close> nor \<open>table\<close> leaves the state of
  the loop (\<open>mappings\<close>, \<open>warnings\<close>, \<open>fallbacks\<close>) as it was: it is matched to no
  tag, it is not among the unmatched styles, and the classification of a catalog that
  holds it, anywhere, is the classification of the catalog without it.
\<close>

theorem C8_skipped_style_frame:
  assumes "\<not> considered (sd_type (snd item))"
  shows "process_style item st = Inr st
     \<and> match_tag (snd item) = None
     \<and> unmatched_styles (pre @ item # post) = unmatched_styles (pre @ post)
     \<and> classification (self\<lparr>styles_data := pre @ item # post\<rparr>)
         = classification (self\<lparr>styles_data := pre @ post\<rparr>)"
proof (intro conjI)
  show "process_style item st = Inr st"
    using assms by (rule process_style_skip)
  show "match_tag (snd item) = None"
    using assms by (simp add: match_tag_def)
  show "unmatched_styles (pre @ item # post) = unmatched_styles (pre @ post)"
    using assms by (simp add: unmatched_styles_def map_filter_def split: option.splits)
  show "classification (self\<lparr>styles_data := pre @ item # post\<rparr>)
         = classification (self\<lparr>styles_data := pre @ post\<rparr>)"
    using assms by (simp add: classification_eq process_styles_drop_skipped)
qed

text \<open>A character style ``Emphasis'' after the paragraph style ``Normal'' changes
  nothing: no entry for it in \<open>styles\<close>, no fallback, no warning.\<close>

theorem C8_skipped_style_frame_witness:
  "\<not> considered (sd_type (snd (style_entry (xml_style ''Emphasis'' ''character'' ''Emphasis''))))
   \<and> classification (parser_with normal_then_character)
       = classification (parser_with [xml_style ''Normal'' ''paragraph'' ''Normal''])
   \<and> classification (parser_with normal_then_character)
       = Inr ([(''p'', ''Normal''), (''h1'', ''Heading 1''), (''h2'', ''Heading 2''),
               (''table.StdTable'', ''Table Grid'')], [], [])"
proof -
  have c: "\<not> considered (sd_type (snd (style_entry (xml_style ''Emphasis'' ''character'' ''Emphasis''))))"
    by (simp add: sample_simps considered_def)
  have d1: "parser_with normal_then_character =
      (init ''sample.docx'')\<lparr>styles_data :=
         [style_entry (xml_style ''Normal'' ''paragraph'' ''Normal'')] @
         style_entry (xml_style ''Emphasis'' ''character'' ''Emphasis'') # []\<rparr>"
    by (simp add: normal_then_character_def sample_simps)
  have d2: "parser_with [xml_style ''Normal'' ''paragraph'' ''Normal''] =
      (init ''sample.docx'')\<lparr>styles_data :=
         [style_entry (xml_style ''Normal'' ''paragraph'' ''Normal'')] @ []\<rparr>"
    by (simp add: sample_simps)
  have e: "classification (parser_with normal_then_character)
       = classification (parser_with [xml_style ''Normal'' ''paragraph'' ''Normal''])"
    unfolding d1 d2
    using C8_skipped_style_frame [OF c, of _ "[style_entry (xml_style ''Normal'' ''paragraph'' ''Normal'')]" "[]" "init ''sample.docx''"]
    by simp
  have v: "classification (parser_with [xml_style ''Normal'' ''paragraph'' ''Normal''])
       = Inr ([(''p'', ''Normal''), (''h1'', ''Heading 1''), (''h2'', ''Heading 2''),
               (''table.StdTable'', ''Table Grid'')], [], [])"
    by (simp add: classification_eq sample_simps process_style_def considered_def
        map_style_to_html_def lower_simps ensure_basic_mappings_def essentials_def)
  from c e v show ?thesis by simp
qed


subsection \<open>C9: determinism\<close>

text \<open>
  Claim C9. Two runs whose catalogs hold the same identifiers, names and types in the same
  order produce the same \<open>styles\<close>, the same \<open>fallbacks\<close> and the same \<open>warnings\<close> in
  the same order (or raise the same exception), whatever else differs between the two
  parsers: the path of the file, the \<open>basedOn\<close> references, the stored elements, an earlier
  manifest.
\<close>

theorem C9_deterministic:
  assumes "map (\<lambda>item. (fst item, sd_name (snd item), sd_type (snd item))) (styles_data self1)
         = map (\<lambda>item. (fst item, sd_name (snd item), sd_type (snd item))) (styles_data self2)"
  shows "classification self1 = classification self2"
proof -
  have "map (\<lambda>t. (fst (snd t), snd (snd t)))
          (map (\<lambda>item. (fst item, sd_name (snd item), sd_type (snd item))) (styles_data self1))
      = map (\<lambda>t. (fst (snd t), snd (snd t)))
          (map (\<lambda>item. (fst item, sd_name (snd item), sd_type (snd item))) (styles_data self2))"
    using assms by simp
  then have "map (\<lambda>i. (sd_name (snd i), sd_type (snd i))) (styles_data self1)
      = map (\<lambda>i. (sd_name (snd i), sd_type (snd i))) (styles_data self2)"
    by (simp add: comp_def)
  then have "process_styles (styles_data self1) ([], [], []) = process_styles (styles_data self2) ([], [], [])"
    by (rule process_styles_cong)
  then show ?thesis by (simp add: classification_eq)
qed


text \<open>Two parsers for different files, one holding an earlier manifest and a \<open>basedOn\<close>
  reference, with the same identifiers, names and types.\<close>

theorem C9_deterministic_witness:
  "map (\<lambda>item. (fst item, sd_name (snd item), sd_type (snd item))) (styles_data run_one)
     = map (\<lambda>item. (fst item, sd_name (snd item), sd_type (snd item))) (styles_data run_two)
   \<and> run_one \<noteq> run_two
   \<and> classification run_one = classification run_two
   \<and> classification run_one
       = Inr ([(''p'', ''Normal''), (''blockquote'', ''Intense Quote''), (''h1'', ''Heading 1''),
               (''h2'', ''Heading 2''), (''table.StdTable'', ''Table Grid'')], [], [])"
proof -
  have h: "map (\<lambda>item. (fst item, sd_name (snd item), sd_type (snd item))) (styles_data run_one)
     = map (\<lambda>item. (fst item, sd_name (snd item), sd_type (snd item))) (styles_data run_two)"
    by (simp add: run_one_def run_two_def sample_simps)
  have ne: "run_one \<noteq> run_two"
    by (simp add: run_one_def run_two_def init_def)
  have v: "classification run_one
       = Inr ([(''p'', ''Normal''), (''blockquote'', ''Intense Quote''), (''h1'', ''Heading 1''),
               (''h2'', ''Heading 2''), (''table.StdTable'', ''Table Grid'')], [], [])"
    by (simp add: run_one_def classification_eq sample_simps process_style_def considered_def
        map_style_to_html_def lower_simps ensure_basic_mappings_def essentials_def)
  from h ne v C9_deterministic [OF h] show ?thesis by simp
qed

subsection \<open>C10: between four and nine mappings\<close>

text \<open>
  Claim C10. For every well-formed catalog the keys of the manifest's \<open>styles\<close> are
  distinct, all belong to the nine-tag vocabulary of the parser, and include \<open>h1\<close>,
  \<open>h2\<close>, \<open>p\<close> and \<open>table.StdTable\<close>. So \<open>styles\<close> has between 4 and 9 entries,
  and so has \<open>statistics.mapped_styles\<close>, however many styles the catalog holds.
\<close>

theorem C10_mapping_size:
  assumes "well_formed (styles_data self)"
  shows "\<exists>m. generate_html_semantic_mappings self = Inr (m, self\<lparr>style_manifest := Some m\<rparr>)
     \<and> set (map fst (styles m)) \<subseteq> set (map fst (html_vocabulary (init path)))
     \<and> length (html_vocabulary (init path)) = 9
     \<and> {''h1'', ''h2'', ''p'', ''table.StdTable''} \<subseteq> set (map fst (styles m))
     \<and> distinct (map fst (styles m))
     \<and> 4 \<le> length (styles m) \<and> length (styles m) \<le> 9
     \<and> 4 \<le> mapped_styles (statistics m) \<and> mapped_styles (statistics m) \<le> 9"
proof -
  from assms obtain m m0 w f where
    p: "process_styles (styles_data self) ([], [], []) = Inr (m0, w, f)"
    and g: "generate_html_semantic_mappings self = Inr (m, self\<lparr>style_manifest := Some m\<rparr>)"
    and s: "styles m = ensure_basic_mappings m0"
    and ms: "mapped_styles (statistics m) = length (styles m)"
    by (rule generate_html_semantic_mappings_total)
  have k0: "fst ` set m0 = {t. \<exists>item \<in> set (styles_data self). match_tag (snd item) = Some t}"
    using process_styles_keys [OF p] by simp
  have keys: "fst ` set (styles m) = fst ` set m0 \<union> fst ` set essentials"
    by (simp add: s ensure_basic_mappings_def keys_ensure_each)
  have "fst ` set m0 \<subseteq> set reachable_tags"
    unfolding k0 using match_tag_range by blast
  with keys essentials_reachable have "fst ` set (styles m) \<subseteq> set reachable_tags"
    by simp
  with reachable_tags_in_vocabulary [of path]
  have sub: "set (map fst (styles m)) \<subseteq> set (map fst (html_vocabulary (init path)))"
    by simp
  have ess: "{''h1'', ''h2'', ''p'', ''table.StdTable''} \<subseteq> set (map fst (styles m))"
    using keys essentials_keys by simp
  have "distinct (map fst m0)"
    using process_styles_distinct [OF p] by simp
  then have dist: "distinct (map fst (styles m))"
    unfolding s ensure_basic_mappings_def by (rule distinct_ensure_each)
  then have len: "length (styles m) = card (set (map fst (styles m)))"
    using distinct_card [of "map fst (styles m)"] by simp
  have "card (set (map fst (styles m))) \<le> card (set (map fst (html_vocabulary (init path))))"
    using sub by (intro card_mono) simp_all
  also have "\<dots> \<le> length (map fst (html_vocabulary (init path)))"
    by (rule card_length)
  also have "\<dots> = 9" by (simp add: length_vocabulary)
  finally have up: "length (styles m) \<le> 9" using len by simp
  have "card {''h1'', ''h2'', ''p'', ''table.StdTable''} \<le> card (set (map fst (styles m)))"
    using ess by (intro card_mono) simp_all
  then have lo: "4 \<le> length (styles m)"
    using len card_essential_keys by simp
  show ?thesis
    using g sub length_vocabulary [of path] ess dist lo up lo [folded ms] up [folded ms]
    by - (rule exI [of _ m], intro conjI, assumption+)
qed

text \<open>The sample catalog of three styles gives four mappings.\<close>

theorem C10_mapping_size_witness:
  "well_formed (styles_data fancy_box)
   \<and> (\<exists>m. manifest_of fancy_box = Some m
        \<and> 4 \<le> mapped_styles (statistics m) \<and> mapped_styles (statistics m) \<le> 9
        \<and> styles m = [(''p'', ''Normal''), (''h1'', ''Heading 1''), (''h2'', ''Heading 2''),
                      (''table.StdTable'', ''Table Grid'')])"
proof -
  have wf: "well_formed (styles_data fancy_box)"
    by (simp add: fancy_box_def sample_simps well_formed_def)
  from C10_mapping_size [OF wf, of "''sample.docx''"] obtain m where
    g: "generate_html_semantic_mappings fancy_box = Inr (m, fancy_box\<lparr>style_manifest := Some m\<rparr>)"
    and b: "4 \<le> mapped_styles (statistics m)" "mapped_styles (statistics m) \<le> 9"
    by blast
  have v: "map_option styles (manifest_of fancy_box) =
      Some [(''p'', ''Normal''), (''h1'', ''Heading 1''), (''h2'', ''Heading 2''),
            (''table.StdTable'', ''Table Grid'')]"
    by (simp add: fancy_box_def manifest_of_def generate_html_semantic_mappings_def sample_simps
        process_style_def considered_def map_style_to_html_def lower_simps
        generate_fallback_mapping_def ensure_basic_mappings_def essentials_def Let_def)
  from g have mo: "manifest_of fancy_box = Some m" by (rule manifest_of_eq)
  with v have "styles m = [(''p'', ''Normal''), (''h1'', ''Heading 1''), (''h2'', ''Heading 2''),
            (''table.StdTable'', ''Table Grid'')]" by simp
  with wf mo b show ?thesis by simp
qed

end
